theory Spec2Isabelle
  imports Complex_Main
begin

chapter \<open>custom.py: helper coroutines and bot subclasses\<close>

text \<open>
  The development follows the two source files: \<^verbatim>\<open>src/ext.py\<close> (the class
  \<^verbatim>\<open>Mapping\<close> and the coroutine \<^verbatim>\<open>wf_msg_or_reaction\<close>) and
  \<^verbatim>\<open>src/dds/custom/bot.py\<close> (the classes \<^verbatim>\<open>QOLBot\<close> and
  \<^verbatim>\<open>VerboseBot\<close>). All definitions come first, the theorems after them.
\<close>

section \<open>Python exceptions\<close>

text \<open>
  The exceptions that the modelled code raises or handles. \<^verbatim>\<open>CancelledError\<close> and
  \<^verbatim>\<open>OtherBaseException\<close> (\<^verbatim>\<open>KeyboardInterrupt\<close>, \<^verbatim>\<open>SystemExit\<close>, ...) derive
  from \<^verbatim>\<open>BaseException\<close> only; every other one derives from \<^verbatim>\<open>Exception\<close>.
\<close>

datatype exn =
    TypeError string
  | ValueError string
  | KeyError string
  | IndexError string
  | TimeoutError
  | AttributeError string
  | CancelledError
  | OtherException string
  | OtherBaseException string

fun isinstance_Exception :: "exn \<Rightarrow> bool" where
  "isinstance_Exception CancelledError = False"
| "isinstance_Exception (OtherBaseException _) = False"
| "isinstance_Exception _ = True"

fun isinstance_BaseException :: "exn \<Rightarrow> bool" where
  "isinstance_BaseException _ = True"

section \<open>ext.py: the class Mapping\<close>

text \<open>
  \<^verbatim>\<open>
  class Mapping(dict):
      def __missing__(self, key):
          return "{" + str(key) + "}"
  \<close>
  The values that index a \<^verbatim>\<open>Mapping\<close> or are stored in it are \<^verbatim>\<open>None\<close>,
  integers and strings here; \<^verbatim>\<open>str\<close> is modelled on exactly these.
\<close>

datatype pyval = PNone | PInt int | PStr string

function str_nat :: "nat \<Rightarrow> string" where
  "str_nat n =
     (if n < 10 then [''0123456789'' ! n]
      else str_nat (n div 10) @ [''0123456789'' ! (n mod 10)])"
  by pat_completeness auto
termination
  by (relation "measure id") auto

declare str_nat.simps [simp del]

definition str_int :: "int \<Rightarrow> string" where
  "str_int i = (if i < 0 then ''-'' @ str_nat (nat (- i)) else str_nat (nat i))"

fun py_str :: "pyval \<Rightarrow> string" where
  "py_str PNone = ''None''"
| "py_str (PInt i) = str_int i"
| "py_str (PStr s) = s"

text \<open>The dictionary part of a \<^verbatim>\<open>Mapping\<close> instance: the stored items.\<close>

type_synonym py_Mapping = "pyval \<rightharpoonup> pyval"

definition missing :: "py_Mapping \<Rightarrow> pyval \<Rightarrow> pyval" where
  "missing self key = PStr (''{'' @ py_str key @ ''}'')"

text \<open>
  Subscription \<^verbatim>\<open>self[key]\<close> of a \<^verbatim>\<open>dict\<close> subclass: the stored value when the key
  is present, and the result of \<^verbatim>\<open>__missing__\<close> otherwise. A plain \<^verbatim>\<open>dict\<close> raises
  \<^verbatim>\<open>KeyError\<close> there.
\<close>

definition getitem :: "py_Mapping \<Rightarrow> pyval \<Rightarrow> pyval" where
  "getitem self key = (case self key of Some v \<Rightarrow> v | None \<Rightarrow> missing self key)"

definition dict_getitem :: "('k \<rightharpoonup> 'v) \<Rightarrow> 'k \<Rightarrow> ('k \<Rightarrow> string) \<Rightarrow> exn + 'v" where
  "dict_getitem d key show_key =
     (case d key of Some v \<Rightarrow> Inr v | None \<Rightarrow> Inl (KeyError (show_key key)))"

text \<open>
  \<^verbatim>\<open>str.format_map(mapping)\<close> on a parsed format string. A format string is literal
  text (held here with \<^verbatim>\<open>{{\<close> and \<^verbatim>\<open>}}\<close> already unescaped) and replacement fields
  \<^verbatim>\<open>{arg_name accessors !conversion :format_spec}\<close>: the argument name, then attribute
  (\<^verbatim>\<open>.name\<close>) and index (\<^verbatim>\<open>[index]\<close>) accessors, an optional conversion and a format
  specification, empty when there is none.
\<close>

datatype accessor = Attribute string | Index string

datatype conversion = NoConversion | ConvS | ConvR | ConvA

datatype segment = Lit string | Repl string "accessor list" conversion string

text \<open>
  What the formatting calls and is not modelled here: \<^verbatim>\<open>getattr\<close> on a value,
  \<^verbatim>\<open>repr\<close> and \<^verbatim>\<open>ascii\<close>, and \<^verbatim>\<open>format(value, spec)\<close> for a format specification that
  is not empty. They are parameters.
\<close>

record format_library =
  lib_getattr :: "pyval \<Rightarrow> string \<Rightarrow> exn + pyval"
  lib_repr :: "pyval \<Rightarrow> string"
  lib_ascii :: "pyval \<Rightarrow> string"
  lib_format :: "pyval \<Rightarrow> string \<Rightarrow> exn + string"

text \<open>
  An argument name that is empty or consists of digits is a positional field;
  \<^verbatim>\<open>format_map\<close> has no positional arguments and raises \<^verbatim>\<open>ValueError\<close> for it.
\<close>

definition is_digit :: "char \<Rightarrow> bool" where
  "is_digit c = (c \<in> set ''0123456789'')"

definition positional :: "string \<Rightarrow> bool" where
  "positional arg_name = list_all is_digit arg_name"

definition digit_value :: "char \<Rightarrow> nat" where
  "digit_value c =
     (case map_of (zip ''0123456789'' [0, 1, 2, 3, 4, 5, 6, 7, 8, 9]) c of
        Some d \<Rightarrow> d
      | None \<Rightarrow> 0)"

definition nat_of_digits :: "string \<Rightarrow> nat" where
  "nat_of_digits s = foldl (\<lambda>n c. 10 * n + digit_value c) 0 s"

text \<open>
  An index accessor subscripts the value: a string with an integer index gives the
  character there or raises \<^verbatim>\<open>IndexError\<close>, with any other index it raises
  \<^verbatim>\<open>TypeError\<close>; \<^verbatim>\<open>None\<close> and integers are not subscriptable.
\<close>

fun py_index :: "pyval \<Rightarrow> string \<Rightarrow> exn + pyval" where
  "py_index (PStr s) idx =
     (if idx \<noteq> [] \<and> list_all is_digit idx then
        (if nat_of_digits idx < length s then Inr (PStr [s ! nat_of_digits idx])
         else Inl (IndexError ''string index out of range''))
      else Inl (TypeError ''string indices must be integers''))"
| "py_index PNone idx = Inl (TypeError ''NoneType object is not subscriptable'')"
| "py_index (PInt i) idx = Inl (TypeError ''int object is not subscriptable'')"

fun apply_accessors :: "format_library \<Rightarrow> pyval \<Rightarrow> accessor list \<Rightarrow> exn + pyval" where
  "apply_accessors lib obj [] = Inr obj"
| "apply_accessors lib obj (Attribute name # accs) =
     (case lib_getattr lib obj name of
        Inl e \<Rightarrow> Inl e
      | Inr obj' \<Rightarrow> apply_accessors lib obj' accs)"
| "apply_accessors lib obj (Index idx # accs) =
     (case py_index obj idx of
        Inl e \<Rightarrow> Inl e
      | Inr obj' \<Rightarrow> apply_accessors lib obj' accs)"

fun convert :: "format_library \<Rightarrow> conversion \<Rightarrow> pyval \<Rightarrow> pyval" where
  "convert lib NoConversion obj = obj"
| "convert lib ConvS obj = PStr (py_str obj)"
| "convert lib ConvR obj = PStr (lib_repr lib obj)"
| "convert lib ConvA obj = PStr (lib_ascii lib obj)"

text \<open>
  A replacement field is replaced by the mapping's item for the argument name, taken
  through the accessors and the conversion and formatted: \<^verbatim>\<open>format(value, "")\<close> is
  \<^verbatim>\<open>str(value)\<close> for the values modelled.
\<close>

fun render :: "format_library \<Rightarrow> py_Mapping \<Rightarrow> segment \<Rightarrow> exn + string" where
  "render lib m (Lit s) = Inr s"
| "render lib m (Repl arg_name accs conv spec) =
     (if positional arg_name then Inl (ValueError ''Format string contains positional fields'')
      else
        (case apply_accessors lib (getitem m (PStr arg_name)) accs of
           Inl e \<Rightarrow> Inl e
         | Inr obj \<Rightarrow>
             (if spec = [] then Inr (py_str (convert lib conv obj))
              else lib_format lib (convert lib conv obj) spec)))"

fun format_map :: "format_library \<Rightarrow> segment list \<Rightarrow> py_Mapping \<Rightarrow> exn + string" where
  "format_map lib [] m = Inr []"
| "format_map lib (seg # segs) m =
     (case render lib m seg of
        Inl e \<Rightarrow> Inl e
      | Inr s \<Rightarrow>
          (case format_map lib segs m of
             Inl e \<Rightarrow> Inl e
           | Inr rest \<Rightarrow> Inr (s @ rest)))"

text \<open>
  The text of a replacement field as it was written, and a plain named field: a name
  that is not positional, with no accessor, no conversion and no format specification.
\<close>

fun accessor_text :: "accessor \<Rightarrow> string" where
  "accessor_text (Attribute name) = ''.'' @ name"
| "accessor_text (Index idx) = ''['' @ idx @ '']''"

fun conversion_text :: "conversion \<Rightarrow> string" where
  "conversion_text NoConversion = []"
| "conversion_text ConvS = ''!s''"
| "conversion_text ConvR = ''!r''"
| "conversion_text ConvA = ''!a''"

fun source_text :: "segment \<Rightarrow> string" where
  "source_text (Lit s) = s"
| "source_text (Repl arg_name accs conv spec) =
     ''{'' @ arg_name @ concat (map accessor_text accs) @ conversion_text conv
     @ (if spec = [] then [] else '':'' @ spec) @ ''}''"

definition plain_field :: "string \<Rightarrow> segment" where
  "plain_field name = Repl name [] NoConversion []"

text \<open>
  A library for the examples. Its four functions stand in for the parts of Python that
  are not modelled; the examples that use it do not depend on what they return.
\<close>

definition sample_format_library :: format_library where
  "sample_format_library =
     \<lparr>lib_getattr = (\<lambda>obj name. Inl (AttributeError name)),
      lib_repr = py_str, lib_ascii = py_str,
      lib_format = (\<lambda>obj spec. Inr (py_str obj))\<rparr>"

section \<open>ext.py: the coroutine wf_msg_or_reaction\<close>

subsection \<open>The objects of the chat library that the coroutine reads\<close>

text \<open>
  Users, channels and messages are compared by their identifiers, as the library's
  \<^verbatim>\<open>__eq__\<close> does. An emoji is a plain string (a Unicode emoji) or a custom emoji
  with a name, an identifier and an animation flag; \<^verbatim>\<open>str\<close> of a custom emoji is
  \<^verbatim>\<open><:name:id>\<close>, or \<^verbatim>\<open><a:name:id>\<close> when animated.
\<close>

datatype emoji = UnicodeEmoji string | CustomEmoji string nat bool

fun str_emoji :: "emoji \<Rightarrow> string" where
  "str_emoji (UnicodeEmoji s) = s"
| "str_emoji (CustomEmoji name ident animated) =
     (if animated then ''<a:'' else ''<:'') @ name @ '':'' @ str_nat ident @ ''>''"

record message =
  msg_id :: nat
  content :: string
  author :: nat
  channel :: nat

record reaction =
  emoji :: emoji
  on_message :: message

record Context =
  ctx_author :: nat
  ctx_channel :: nat
  ctx_message :: message

text \<open>
  \<^verbatim>\<open>str.lower\<close> on the letters of ASCII. Every other character is left as it is,
  also the letters outside ASCII that Python folds. The default message check and the
  lookup in the pairs apply the same function.
\<close>

definition lower_char :: "char \<Rightarrow> char" where
  "lower_char c =
     (case map_of (zip ''ABCDEFGHIJKLMNOPQRSTUVWXYZ'' ''abcdefghijklmnopqrstuvwxyz'') c of
        Some d \<Rightarrow> d
      | None \<Rightarrow> c)"

definition lower :: "string \<Rightarrow> string" where
  "lower s = map lower_char s"

text \<open>
  The keyword arguments \<^verbatim>\<open>**pairs\<close>, in the order given: text replies and the
  emoji strings they stand for.
\<close>

type_synonym pairs = "(string \<times> string) list"

definition keys :: "pairs \<Rightarrow> string list" where
  "keys pairs = map fst pairs"

definition values_of :: "pairs \<Rightarrow> string list" where
  "values_of pairs = map snd pairs"

text \<open>
  A callable given as a check: how it answers a call with one argument (a message) and
  a call with two (a reaction and the identifier of the user who added it). It returns
  a truth value or raises.
\<close>

datatype callable =
  Callable (call_message: "message \<Rightarrow> exn + bool") (call_reaction: "reaction \<Rightarrow> nat \<Rightarrow> exn + bool")

subsection \<open>The default checks\<close>

definition reaction_check :: "pairs \<Rightarrow> Context \<Rightarrow> message \<Rightarrow> reaction \<Rightarrow> nat \<Rightarrow> bool" where
  "reaction_check pairs ctx message r u =
     (if str_emoji (emoji r) \<in> set (values_of pairs) then
        (if u = ctx_author ctx then
           (if msg_id (on_message r) = msg_id message then True else False)
         else False)
      else False)"

definition message_check :: "pairs \<Rightarrow> Context \<Rightarrow> message \<Rightarrow> bool" where
  "message_check pairs ctx m =
     (content m \<noteq> [] \<and> lower (content m) \<in> set (keys pairs)
      \<and> author m = ctx_author ctx \<and> channel m = ctx_channel ctx)"

definition default_checks :: "pairs \<Rightarrow> Context \<Rightarrow> message \<Rightarrow> callable list" where
  "default_checks pairs ctx message =
     [Callable (\<lambda>m. Inr (message_check pairs ctx m)) (\<lambda>r u. Inr False),
      Callable (\<lambda>m. Inr False) (\<lambda>r u. Inr (reaction_check pairs ctx message r u))]"

subsection \<open>Events, the two waits and asyncio.wait\<close>

text \<open>
  What the gateway delivers after the call: each event with the time, in seconds since
  the call, at which it is dispatched. The list is in dispatch order.
\<close>

datatype gateway_event = MessageEvent message | ReactionAdd reaction nat

type_synonym timed_event = "rat \<times> gateway_event"

text \<open>
  \<^verbatim>\<open>bot.wait_for("message", check=c)\<close> resolves at the first message event on which
  the check is true (with the message) or raises (with the exception);
  \<^verbatim>\<open>bot.wait_for("reaction_add", check=c)\<close> likewise, with the pair of the reaction
  and the user. The result is the time of that event and the outcome, or \<open>None\<close>
  when no event resolves the wait.
\<close>

fun wait_for_message :: "callable \<Rightarrow> timed_event list \<Rightarrow> (rat \<times> (exn + message)) option" where
  "wait_for_message c [] = None"
| "wait_for_message c ((t, MessageEvent m) # evs) =
     (case call_message c m of
        Inl e \<Rightarrow> Some (t, Inl e)
      | Inr True \<Rightarrow> Some (t, Inr m)
      | Inr False \<Rightarrow> wait_for_message c evs)"
| "wait_for_message c ((t, ReactionAdd r u) # evs) = wait_for_message c evs"

fun wait_for_reaction ::
  "callable \<Rightarrow> timed_event list \<Rightarrow> (rat \<times> (exn + reaction \<times> nat)) option" where
  "wait_for_reaction c [] = None"
| "wait_for_reaction c ((t, ReactionAdd r u) # evs) =
     (case call_reaction c r u of
        Inl e \<Rightarrow> Some (t, Inl e)
      | Inr True \<Rightarrow> Some (t, Inr (r, u))
      | Inr False \<Rightarrow> wait_for_reaction c evs)"
| "wait_for_reaction c ((t, MessageEvent m) # evs) = wait_for_reaction c evs"

text \<open>
  \<^verbatim>\<open>asyncio.wait(tasks, timeout=T, return_when="FIRST_COMPLETED")\<close> returns when the
  first of the two tasks completes, or after \<open>T\<close> seconds. A task is in \<open>done\<close> when it
  has completed by then; two tasks that complete at the same time are both in \<open>done\<close>.
  The result gives, for each of the two tasks, its outcome when it is in \<open>done\<close> and
  \<open>None\<close> when it is in \<open>pending\<close>.
\<close>

definition asyncio_wait ::
  "(rat \<times> 'a) option \<Rightarrow> (rat \<times> 'b) option \<Rightarrow> rat \<Rightarrow> 'a option \<times> 'b option" where
  "asyncio_wait task0 task1 T =
     (case (task0, task1) of
        (None, None) \<Rightarrow> (None, None)
      | (Some (t0, r0), None) \<Rightarrow> (if t0 \<le> T then (Some r0, None) else (None, None))
      | (None, Some (t1, r1)) \<Rightarrow> (if t1 \<le> T then (None, Some r1) else (None, None))
      | (Some (t0, r0), Some (t1, r1)) \<Rightarrow>
          (if t0 < t1 then (if t0 \<le> T then (Some r0, None) else (None, None))
           else if t1 < t0 then (if t1 \<le> T then (None, Some r1) else (None, None))
           else (if t0 \<le> T then (Some r0, Some r1) else (None, None))))"

subsection \<open>The coroutine\<close>

text \<open>
  The \<^verbatim>\<open>timeout\<close> argument: \<^verbatim>\<open>None\<close>, an integer or a float. A finite float is a
  rational number, and the code does no arithmetic on it.
\<close>

datatype timeout_arg = TNone | TInt int | TFloat rat

fun truthy_timeout :: "timeout_arg \<Rightarrow> bool" where
  "truthy_timeout TNone = False"
| "truthy_timeout (TInt i) = (i \<noteq> 0)"
| "truthy_timeout (TFloat x) = (x \<noteq> 0)"

text \<open>\<^verbatim>\<open>timeout or 120.0\<close>, and the number of seconds a timeout stands for.\<close>

definition timeout_or_default :: "timeout_arg \<Rightarrow> timeout_arg" where
  "timeout_or_default timeout = (if truthy_timeout timeout then timeout else TFloat 120)"

text \<open>
  \<^verbatim>\<open>None\<close> is falsy, so it never reaches \<^verbatim>\<open>asyncio.wait\<close>; the last equation of
  \<open>seconds\<close> only makes the function total.
\<close>

fun seconds :: "timeout_arg \<Rightarrow> rat" where
  "seconds (TInt i) = of_int i"
| "seconds (TFloat x) = x"
| "seconds TNone = 0"

text \<open>
  The value returned: \<^verbatim>\<open>pairs[...]\<close>, a string of the caller's, or the emoji object
  of the reaction.
\<close>

datatype returned = PairValue string | ReactionEmoji emoji

text \<open>
  \<^verbatim>\<open>
  message = message or ctx.message
  if not checks:
      ... checks = [<message check>, reaction_check]
  tasks = [
      ctx.bot.wait_for("message", check=checks[0]),
      ctx.bot.wait_for("reaction_add", check=checks[1]),
  ]
  done, pending = await asyncio.wait(
      tasks, timeout=timeout or 120.0, return_when="FIRST_COMPLETED"
  )
  for task in pending:
      task.cancel()
  if not done:
      raise asyncio.TimeoutError()
  result = done.pop()
  if result.exception():
      raise result.exception()
  resolved = result.result()
  if isinstance(resolved, discord.Message):
      return pairs[resolved.content.lower()]
  return resolved[0].emoji
  \<close>
  \<^verbatim>\<open>done.pop()\<close> takes an arbitrary element of a set; \<open>pop_message_task\<close> says whether
  it takes the message task when both tasks are in \<open>done\<close>.
\<close>

definition from_message :: "pairs \<Rightarrow> exn + message \<Rightarrow> exn + returned" where
  "from_message pairs result =
     (case result of
        Inl e \<Rightarrow> Inl e
      | Inr resolved \<Rightarrow>
          (case dict_getitem (map_of pairs) (lower (content resolved)) id of
             Inl e \<Rightarrow> Inl e
           | Inr v \<Rightarrow> Inr (PairValue v)))"

definition from_reaction :: "exn + reaction \<times> nat \<Rightarrow> exn + returned" where
  "from_reaction result =
     (case result of
        Inl e \<Rightarrow> Inl e
      | Inr resolved \<Rightarrow> Inr (ReactionEmoji (emoji (fst resolved))))"

text \<open>\<^verbatim>\<open>message or ctx.message\<close>: a message object is always truthy.\<close>

definition message_or_default :: "message option \<Rightarrow> Context \<Rightarrow> message" where
  "message_or_default message ctx = (case message of Some m \<Rightarrow> m | None \<Rightarrow> ctx_message ctx)"

definition checks_or_default ::
  "callable list option \<Rightarrow> pairs \<Rightarrow> Context \<Rightarrow> message \<Rightarrow> callable list" where
  "checks_or_default checks pairs ctx message =
     (case checks of
        None \<Rightarrow> default_checks pairs ctx message
      | Some [] \<Rightarrow> default_checks pairs ctx message
      | Some cs \<Rightarrow> cs)"

definition wf_msg_or_reaction ::
  "Context \<Rightarrow> timeout_arg \<Rightarrow> callable list option \<Rightarrow> message option \<Rightarrow> pairs \<Rightarrow>
   timed_event list \<Rightarrow> bool \<Rightarrow> exn + returned" where
  "wf_msg_or_reaction ctx timeout checks message pairs events pop_message_task =
     (let message = message_or_default message ctx;
          checks = checks_or_default checks pairs ctx message
      in if length checks < 2 then Inl (IndexError ''list index out of range'')
         else
           (case asyncio_wait (wait_for_message (checks ! 0) events)
                   (wait_for_reaction (checks ! 1) events)
                   (seconds (timeout_or_default timeout)) of
              (None, None) \<Rightarrow> Inl TimeoutError
            | (Some r0, None) \<Rightarrow> from_message pairs r0
            | (None, Some r1) \<Rightarrow> from_reaction r1
            | (Some r0, Some r1) \<Rightarrow>
                (if pop_message_task then from_message pairs r0 else from_reaction r1)))"

subsection \<open>Events that resolve a wait\<close>

text \<open>
  An event matches a check when the check is true on it; it resolves the wait when the
  check is true on it or raises.
\<close>

fun matches_message :: "callable \<Rightarrow> gateway_event \<Rightarrow> bool" where
  "matches_message c (MessageEvent m) = (call_message c m = Inr True)"
| "matches_message c (ReactionAdd r u) = False"

fun matches_reaction :: "callable \<Rightarrow> gateway_event \<Rightarrow> bool" where
  "matches_reaction c (ReactionAdd r u) = (call_reaction c r u = Inr True)"
| "matches_reaction c (MessageEvent m) = False"

fun resolves_message :: "callable \<Rightarrow> gateway_event \<Rightarrow> bool" where
  "resolves_message c (MessageEvent m) = (call_message c m \<noteq> Inr False)"
| "resolves_message c (ReactionAdd r u) = False"

fun resolves_reaction :: "callable \<Rightarrow> gateway_event \<Rightarrow> bool" where
  "resolves_reaction c (ReactionAdd r u) = (call_reaction c r u \<noteq> Inr False)"
| "resolves_reaction c (MessageEvent m) = False"

text \<open>No event dispatched within \<open>T\<close> seconds matches one of the two checks.\<close>

definition no_match_within :: "callable \<Rightarrow> callable \<Rightarrow> rat \<Rightarrow> timed_event list \<Rightarrow> bool" where
  "no_match_within c0 c1 T events =
     (filter (\<lambda>(t, ev). t \<le> T \<and> (matches_message c0 ev \<or> matches_reaction c1 ev)) events = [])"

text \<open>No event dispatched within \<open>T\<close> seconds resolves one of the two waits.\<close>

definition none_resolves_within :: "callable \<Rightarrow> callable \<Rightarrow> rat \<Rightarrow> timed_event list \<Rightarrow> bool" where
  "none_resolves_within c0 c1 T events =
     (filter (\<lambda>(t, ev). t \<le> T \<and> (resolves_message c0 ev \<or> resolves_reaction c1 ev)) events = [])"

subsection \<open>A sample conversation\<close>

text \<open>
  A command context, two text replies (one by the command's author, one by another
  user), a reaction to the command message, and the pairs \<^verbatim>\<open>yes=":y:", no=":n:"\<close>.
\<close>

definition sample_ctx :: Context where
  "sample_ctx =
     \<lparr>ctx_author = 1, ctx_channel = 2,
      ctx_message = \<lparr>msg_id = 5, content = ''!ask'', author = 1, channel = 2\<rparr>\<rparr>"

definition sample_reply :: message where
  "sample_reply = \<lparr>msg_id = 7, content = ''Yes'', author = 1, channel = 2\<rparr>"

definition sample_chatter :: message where
  "sample_chatter = \<lparr>msg_id = 6, content = ''yes'', author = 3, channel = 2\<rparr>"

definition sample_reaction :: reaction where
  "sample_reaction = \<lparr>emoji = UnicodeEmoji '':n:'', on_message = ctx_message sample_ctx\<rparr>"

definition sample_pairs :: pairs where
  "sample_pairs = [(''yes'', '':y:''), (''no'', '':n:'')]"

text \<open>Two custom checks: one that raises on every message, one that is never true.\<close>

definition raising_check :: callable where
  "raising_check = Callable (\<lambda>m. Inl (ValueError ''bad check'')) (\<lambda>r u. Inr False)"

definition never_check :: callable where
  "never_check = Callable (\<lambda>m. Inr False) (\<lambda>r u. Inr False)"

section \<open>bot.py: the class QOLBot\<close>

subsection \<open>Jobs and the queue\<close>

text \<open>
  A job is an awaitable put into \<^verbatim>\<open>self.queue\<close>. Awaiting it suspends the worker a
  number of times and then ends: the job returns, or it raises. A job whose ending is
  \<open>None\<close> never ends. (Awaiting an object that is not awaitable raises \<^verbatim>\<open>TypeError\<close>
  at once: no suspension, ending \<open>Raised (TypeError ...)\<close>.)
\<close>

datatype outcome = Returned | Raised exn

datatype job = Job (job_id: nat) (suspensions: nat) (ending: "outcome option")

text \<open>
  The worker task is suspended in \<^verbatim>\<open>await self.queue.get()\<close>, or in \<^verbatim>\<open>await job\<close>
  with a number of suspensions of the job still to come, or it has ended with an
  exception that left \<^verbatim>\<open>__queue_worker\<close>.
\<close>

datatype worker = AtGet | AtJob job nat | Dead exn

text \<open>What happens, in the order in which it happens.\<close>

datatype wevent =
    Enqueued job
  | Awaiting job
  | Ended job outcome
  | PrintStderr string
  | PrintExc exn
  | TaskDone

text \<open>
  The part of a \<^verbatim>\<open>QOLBot\<close> that the worker uses: the \<^verbatim>\<open>asyncio.Queue\<close> (its bound, its
  items in FIFO order, its count of unfinished tasks), the worker task and the trace.
\<close>

record QOLBot =
  maxsize :: int
  queue :: "job list"
  unfinished_tasks :: nat
  worker :: worker
  trace :: "wevent list"

text \<open>
  \<^verbatim>\<open>
  def __init__(self, *args, **kwargs):
      self.queue = asyncio.Queue(kwargs.pop("max_queue_size", 30))
      self._queue_worker = self.loop.create_task(self.__queue_worker())
      super().__init__(*args, **kwargs)
  \<close>
  The attribute \<^verbatim>\<open>loop\<close> of a bot is assigned by the constructor of the library's client
  class, which \<^verbatim>\<open>super().__init__\<close> runs. On an instance on which that constructor has
  not run yet, reading \<^verbatim>\<open>self.loop\<close> raises \<^verbatim>\<open>AttributeError\<close>.
\<close>

datatype instance_stage = Fresh | BaseInitialised

definition getattr_loop :: "instance_stage \<Rightarrow> exn + unit" where
  "getattr_loop stage =
     (case stage of
        Fresh \<Rightarrow>
          Inl (AttributeError ([CHR 0x27] @ ''QOLBot'' @ [CHR 0x27] @ '' object has no attribute ''
                               @ [CHR 0x27] @ ''loop'' @ [CHR 0x27]))
      | BaseInitialised \<Rightarrow> Inr ())"

text \<open>
  The bot once the queue exists and the worker task has been created: an empty queue
  with the given bound, and the worker about to call \<^verbatim>\<open>queue.get()\<close>.
\<close>

definition worker_started :: "int \<Rightarrow> QOLBot" where
  "worker_started bound =
     \<lparr>maxsize = bound, queue = [], unfinished_tasks = 0, worker = AtGet, trace = []\<rparr>"

text \<open>
  The constructor, line by line: the queue is made first; \<^verbatim>\<open>self.loop\<close> is then read
  from the instance, which is still fresh because \<^verbatim>\<open>super().__init__\<close> is the line
  after; only when that read succeeds is the worker task created.
\<close>

definition QOLBot_init :: "int option \<Rightarrow> exn + QOLBot" where
  "QOLBot_init max_queue_size =
     (let bound = (case max_queue_size of Some n \<Rightarrow> n | None \<Rightarrow> 30);
          stage = Fresh
      in case getattr_loop stage of
           Inl e \<Rightarrow> Inl e
         | Inr loop \<Rightarrow> Inr (worker_started bound))"

text \<open>
  \<^verbatim>\<open>asyncio.Queue\<close>: a queue is full when its bound is positive and reached; \<^verbatim>\<open>put\<close>
  appends at the end and counts one more unfinished task (on a full queue the producer
  stays suspended and nothing changes); \<^verbatim>\<open>task_done\<close> raises \<^verbatim>\<open>ValueError\<close> when no
  task is unfinished.
\<close>

definition full :: "QOLBot \<Rightarrow> bool" where
  "full self = (0 < maxsize self \<and> maxsize self \<le> int (length (queue self)))"

definition put :: "job \<Rightarrow> QOLBot \<Rightarrow> QOLBot" where
  "put j self =
     (if full self then self
      else self\<lparr>queue := queue self @ [j],
                unfinished_tasks := unfinished_tasks self + 1,
                trace := trace self @ [Enqueued j]\<rparr>)"

definition task_done :: "QOLBot \<Rightarrow> exn + QOLBot" where
  "task_done self =
     (if unfinished_tasks self = 0 then Inl (ValueError ''task_done() called too many times'')
      else Inr (self\<lparr>unfinished_tasks := unfinished_tasks self - 1,
                     trace := trace self @ [TaskDone]\<rparr>))"

subsection \<open>The worker\<close>

text \<open>
  \<^verbatim>\<open>
  async def __queue_worker(self):
      while True:
          job = await self.queue.get()
          try:
              await job
          except (Exception, BaseException) as e:
              print("(QOLBot Worker) Failed to do job ID '{}' - Skipping.", file=stderr)
              print_exc()
          finally:
              try:
                  self.queue.task_done()
              except asyncio.QueueEmpty:
                  pass
  \<close>
  \<open>after_await\<close> is the rest of one iteration once \<^verbatim>\<open>await job\<close> has ended: the handler
  when the job raised, then the \<^verbatim>\<open>finally\<close> block, then the next iteration or the
  exception that leaves the worker. \<^verbatim>\<open>QueueEmpty\<close> is not among the exceptions that
  \<^verbatim>\<open>task_done\<close> raises, so its handler catches nothing.
\<close>

definition failed_message :: string where
  "failed_message = ''(QOLBot Worker) Failed to do job ID '' @ [CHR 0x27] @ ''{}'' @ [CHR 0x27]
     @ '' - Skipping.''"

definition except_clause :: "exn \<Rightarrow> QOLBot \<Rightarrow> QOLBot \<times> exn option" where
  "except_clause e self =
     (if isinstance_Exception e \<or> isinstance_BaseException e
      then (self\<lparr>trace := trace self @ [PrintStderr failed_message, PrintExc e]\<rparr>, None)
      else (self, Some e))"

definition after_await :: "job \<Rightarrow> outcome \<Rightarrow> QOLBot \<Rightarrow> QOLBot" where
  "after_await j r self =
     (let self1 = self\<lparr>trace := trace self @ [Ended j r]\<rparr>;
          (self2, uncaught) = (case r of Returned \<Rightarrow> (self1, None) | Raised e \<Rightarrow> except_clause e self1)
      in case task_done self2 of
           Inl e \<Rightarrow> self2\<lparr>worker := Dead e\<rparr>
         | Inr self3 \<Rightarrow>
             (case uncaught of
                None \<Rightarrow> self3\<lparr>worker := AtGet\<rparr>
              | Some e \<Rightarrow> self3\<lparr>worker := Dead e\<rparr>))"

text \<open>
  What the event loop can do next: a producer puts a job, the worker task is resumed,
  or the worker task is cancelled (as \<^verbatim>\<open>close\<close> does). Resuming the worker in
  \<^verbatim>\<open>queue.get()\<close> takes the head of the queue when there is one and starts awaiting it;
  resuming it in \<^verbatim>\<open>await job\<close> passes one suspension of the job, or ends the job.
  Cancelling raises \<^verbatim>\<open>CancelledError\<close> where the worker is suspended: in \<^verbatim>\<open>queue.get()\<close>,
  outside the \<^verbatim>\<open>try\<close>, it ends the worker; in \<^verbatim>\<open>await job\<close> it is what the job raises.
\<close>

datatype action = Put job | Resume | Cancel

fun step :: "action \<Rightarrow> QOLBot \<Rightarrow> QOLBot" where
  "step (Put j) self = put j self"
| "step Resume self =
     (case worker self of
        AtGet \<Rightarrow>
          (case queue self of
             [] \<Rightarrow> self
           | j # rest \<Rightarrow>
               self\<lparr>queue := rest, worker := AtJob j (suspensions j),
                    trace := trace self @ [Awaiting j]\<rparr>)
      | AtJob j (Suc k) \<Rightarrow> self\<lparr>worker := AtJob j k\<rparr>
      | AtJob j 0 \<Rightarrow> (case ending j of None \<Rightarrow> self | Some r \<Rightarrow> after_await j r self)
      | Dead e \<Rightarrow> self)"
| "step Cancel self =
     (case worker self of
        AtGet \<Rightarrow> self\<lparr>worker := Dead CancelledError\<rparr>
      | AtJob j k \<Rightarrow> after_await j (Raised CancelledError) self
      | Dead e \<Rightarrow> self)"

definition run :: "action list \<Rightarrow> QOLBot \<Rightarrow> QOLBot" where
  "run acts self = fold step acts self"

text \<open>
  A program that constructs a \<^verbatim>\<open>QOLBot\<close> and then lets the event loop run a schedule:
  the exception of the constructor, or the bot after the schedule.
\<close>

definition QOLBot_session :: "int option \<Rightarrow> action list \<Rightarrow> exn + QOLBot" where
  "QOLBot_session max_queue_size acts =
     (case QOLBot_init max_queue_size of
        Inl e \<Rightarrow> Inl e
      | Inr self \<Rightarrow> Inr (run acts self))"

subsection \<open>Reading the trace\<close>

fun enqueued :: "wevent list \<Rightarrow> job list" where
  "enqueued [] = []"
| "enqueued (Enqueued j # es) = j # enqueued es"
| "enqueued (_ # es) = enqueued es"

fun awaited :: "wevent list \<Rightarrow> job list" where
  "awaited [] = []"
| "awaited (Awaiting j # es) = j # awaited es"
| "awaited (_ # es) = awaited es"

fun ended :: "wevent list \<Rightarrow> job list" where
  "ended [] = []"
| "ended (Ended j r # es) = j # ended es"
| "ended (_ # es) = ended es"

text \<open>
  One at a time: read from a point where \<open>cur\<close> is the job being awaited (if any), the
  trace starts a job only when none is being awaited and ends only the job that is.
  \<open>current\<close> is the job being awaited at the end of the trace.
\<close>

fun one_at_a_time :: "job option \<Rightarrow> wevent list \<Rightarrow> bool" where
  "one_at_a_time cur [] = True"
| "one_at_a_time cur (Awaiting j # es) = (cur = None \<and> one_at_a_time (Some j) es)"
| "one_at_a_time cur (Ended j r # es) = (cur = Some j \<and> one_at_a_time None es)"
| "one_at_a_time cur (_ # es) = one_at_a_time cur es"

fun current :: "job option \<Rightarrow> wevent list \<Rightarrow> job option" where
  "current cur [] = cur"
| "current cur (Awaiting j # es) = current (Some j) es"
| "current cur (Ended j r # es) = current None es"
| "current cur (_ # es) = current cur es"

text \<open>
  Every failure is logged: each \<open>Ended j (Raised e)\<close> is followed at once by the line
  on \<^verbatim>\<open>stderr\<close>, the stack trace of \<open>e\<close>, and \<^verbatim>\<open>task_done\<close>; each \<open>Ended j Returned\<close>
  by \<^verbatim>\<open>task_done\<close>.
\<close>

fun failures_logged :: "wevent list \<Rightarrow> bool" where
  "failures_logged [] = True"
| "failures_logged (Ended j (Raised e) # es) =
     (take 3 es = [PrintStderr failed_message, PrintExc e, TaskDone] \<and> failures_logged es)"
| "failures_logged (Ended j Returned # es) = (take 1 es = [TaskDone] \<and> failures_logged es)"
| "failures_logged (_ # es) = failures_logged es"

text \<open>
  The number of resumptions after which the worker has taken and ended every job that
  is queued, when every such job ends.
\<close>

fun job_ends :: "job \<Rightarrow> bool" where
  "job_ends j = (ending j \<noteq> None)"

fun resumptions :: "worker \<Rightarrow> nat" where
  "resumptions AtGet = 0"
| "resumptions (AtJob j k) = Suc k"
| "resumptions (Dead e) = 0"

definition drain :: "QOLBot \<Rightarrow> nat" where
  "drain self = resumptions (worker self) + sum_list (map (\<lambda>j. suspensions j + 2) (queue self))"

fun alive :: "worker \<Rightarrow> bool" where
  "alive (Dead e) = False"
| "alive _ = True"

fun pending_ends :: "QOLBot \<Rightarrow> bool" where
  "pending_ends self =
     ((case worker self of AtJob j k \<Rightarrow> job_ends j | _ \<Rightarrow> True) \<and> list_all job_ends (queue self))"

fun is_cancel :: "action \<Rightarrow> bool" where
  "is_cancel Cancel = True"
| "is_cancel _ = False"

text \<open>
  The invariant of the worker: the jobs awaited so far and the jobs still queued make
  up the jobs enqueued, in order; every job awaited has ended except the one being
  awaited; the count of unfinished tasks covers the queued jobs and the one being
  awaited; the trace is one at a time with every failure logged; and only a
  cancellation has ever ended the worker.
\<close>

fun in_progress :: "worker \<Rightarrow> job list" where
  "in_progress (AtJob j k) = [j]"
| "in_progress _ = []"

definition worker_invariant :: "QOLBot \<Rightarrow> bool" where
  "worker_invariant self =
     (awaited (trace self) @ queue self = enqueued (trace self)
      \<and> ended (trace self) @ in_progress (worker self) = awaited (trace self)
      \<and> unfinished_tasks self = length (in_progress (worker self)) + length (queue self)
      \<and> one_at_a_time None (trace self)
      \<and> current None (trace self) = (case worker self of AtJob j k \<Rightarrow> Some j | _ \<Rightarrow> None)
      \<and> failures_logged (trace self)
      \<and> (case worker self of Dead e \<Rightarrow> e = CancelledError | _ \<Rightarrow> True))"

text \<open>The jobs that a schedule puts, whether or not the queue had room for them.\<close>

fun puts :: "action list \<Rightarrow> job list" where
  "puts [] = []"
| "puts (Put j # acts) = j # puts acts"
| "puts (_ # acts) = puts acts"

subsection \<open>Sample jobs\<close>

text \<open>
  A job that raises at once, a job that returns after one suspension, a job that raises
  \<^verbatim>\<open>KeyboardInterrupt\<close> after two, and a schedule that puts them while the worker runs.
\<close>

definition failing_job :: job where
  "failing_job = Job 1 0 (Some (Raised (OtherException ''boom'')))"

definition quiet_job :: job where
  "quiet_job = Job 2 1 (Some Returned)"

definition interrupted_job :: job where
  "interrupted_job = Job 3 2 (Some (Raised (OtherBaseException ''KeyboardInterrupt'')))"

definition sample_schedule :: "action list" where
  "sample_schedule = [Put failing_job, Put quiet_job, Resume, Put interrupted_job]"

section \<open>bot.py: the class VerboseBot\<close>

subsection \<open>Keyword arguments and their values\<close>

text \<open>
  The Python values that a caller may pass as \<^verbatim>\<open>log_channel\<close> or \<^verbatim>\<open>log_events\<close>, with
  their truth value and the two \<^verbatim>\<open>isinstance\<close> tests of the constructor. \<^verbatim>\<open>bool\<close> is a
  subclass of \<^verbatim>\<open>int\<close>, and \<^verbatim>\<open>LogEvents\<close> a subclass of \<^verbatim>\<open>dict\<close>.
\<close>

datatype pyobj =
    ONone
  | OBool bool
  | OInt int
  | OFloat rat
  | OStr string
  | OList "pyobj list"
  | ODict "(string \<times> pyobj) list"
  | OLogEvents "(string \<times> pyobj) list"

fun truthy :: "pyobj \<Rightarrow> bool" where
  "truthy ONone = False"
| "truthy (OBool b) = b"
| "truthy (OInt i) = (i \<noteq> 0)"
| "truthy (OFloat x) = (x \<noteq> 0)"
| "truthy (OStr s) = (s \<noteq> [])"
| "truthy (OList xs) = (xs \<noteq> [])"
| "truthy (ODict d) = (d \<noteq> [])"
| "truthy (OLogEvents d) = (d \<noteq> [])"

fun isinstance_int :: "pyobj \<Rightarrow> bool" where
  "isinstance_int (OInt i) = True"
| "isinstance_int (OBool b) = True"
| "isinstance_int _ = False"

fun isinstance_dict :: "pyobj \<Rightarrow> bool" where
  "isinstance_dict (ODict d) = True"
| "isinstance_dict (OLogEvents d) = True"
| "isinstance_dict _ = False"

fun isinstance_LogEvents :: "pyobj \<Rightarrow> bool" where
  "isinstance_LogEvents (OLogEvents d) = True"
| "isinstance_LogEvents _ = False"

text \<open>
  \<^verbatim>\<open>
  class LogEvents(dict):
      def __init__(self, *, connection=True, on_ready=True, commands=True,
                   command_errors=True):
          super().__init__(connection=connection, on_ready=on_ready,
                           commands=commands, command_errors=command_errors)
  \<close>
\<close>

definition LogEvents :: "bool \<Rightarrow> bool \<Rightarrow> bool \<Rightarrow> bool \<Rightarrow> pyobj" where
  "LogEvents connection on_ready commands command_errors =
     OLogEvents [(''connection'', OBool connection), (''on_ready'', OBool on_ready),
                 (''commands'', OBool commands), (''command_errors'', OBool command_errors)]"

text \<open>Keyword arguments, in the order given; a keyword occurs once.\<close>

type_synonym kwargs = "(string \<times> pyobj) list"

text \<open>\<^verbatim>\<open>kwargs.pop(key, default)\<close>: the value and the remaining keyword arguments.\<close>

definition kwargs_pop :: "kwargs \<Rightarrow> string \<Rightarrow> pyobj \<Rightarrow> pyobj \<times> kwargs" where
  "kwargs_pop kw key dflt =
     (case map_of kw key of
        Some v \<Rightarrow> (v, filter (\<lambda>(k, v). k \<noteq> key) kw)
      | None \<Rightarrow> (dflt, kw))"

subsection \<open>Channels, webhooks and the bot\<close>

record webhook =
  webhook_id :: nat
  webhook_name :: string

record permissions =
  manage_webhooks :: bool
  send_messages :: bool

text \<open>
  A guild text channel: its identifier, the permissions of the bot's member in it
  (\<^verbatim>\<open>permissions_for(guild.me)\<close>) and the webhooks that \<^verbatim>\<open>webhooks()\<close> fetches.
\<close>

record text_channel =
  channel_id :: int
  permissions_for_me :: permissions
  channel_webhooks :: "webhook list"

record VerboseBot =
  logging_channel_id :: pyobj
  logging_events :: pyobj
  log_channel :: "text_channel option"
  is_ready :: bool
  base_args :: "pyobj list"
  base_kwargs :: kwargs
  listeners :: "(string \<times> string) list"

text \<open>
  \<^verbatim>\<open>
  def __init__(self, *args, **kwargs):
      self._logging_channel_id = kwargs.pop("log_channel", None)
      if self._logging_channel_id and not isinstance(self._logging_channel_id, int):
          raise TypeError("Logging channel ID is not an integer.")
      self._logging_events = kwargs.pop("log_events", LogEvents())
      if not isinstance(self._logging_events, (dict, LogEvents)):
          raise TypeError("Logging events is not a dictionary or LogEvents class.")
      self._log_channel = None
      super().__init__(*args, **kwargs)
      self.add_listener(self._on_command_error, "on_command_error")
      self.add_listener(self._on_ready, "on_ready")
  \<close>
  The constructor of the base class receives the remaining arguments; it is taken to
  succeed. A result \<open>Inl\<close> is an exception raised before the base constructor runs.
\<close>

definition VerboseBot_init :: "pyobj list \<Rightarrow> kwargs \<Rightarrow> exn + VerboseBot" where
  "VerboseBot_init args kwargs =
     (let (channel, kwargs1) = kwargs_pop kwargs ''log_channel'' ONone
      in if truthy channel \<and> \<not> isinstance_int channel
         then Inl (TypeError ''Logging channel ID is not an integer.'')
         else
           (let (events, kwargs2) = kwargs_pop kwargs1 ''log_events'' (LogEvents True True True True)
            in if \<not> (isinstance_dict events \<or> isinstance_LogEvents events)
               then Inl (TypeError ''Logging events is not a dictionary or LogEvents class.'')
               else Inr \<lparr>logging_channel_id = channel, logging_events = events,
                         log_channel = None, is_ready = False,
                         base_args = args, base_kwargs = kwargs2,
                         listeners = [(''_on_command_error'', ''on_command_error''),
                                      (''_on_ready'', ''on_ready'')]\<rparr>))"

text \<open>The value that the constructor reads for a keyword: the one supplied, or the default.\<close>

definition supplied :: "kwargs \<Rightarrow> string \<Rightarrow> pyobj \<Rightarrow> pyobj" where
  "supplied kw key dflt = (case map_of kw key of Some v \<Rightarrow> v | None \<Rightarrow> dflt)"

subsection \<open>The background log routine\<close>

text \<open>
  What the routine calls outside this repository: \<^verbatim>\<open>self.get_channel\<close>,
  \<^verbatim>\<open>random.choice\<close>, the webhook that \<^verbatim>\<open>create_webhook\<close> returns, and
  \<^verbatim>\<open>textwrap.shorten\<close>. They are parameters of the model. Network failures of the
  sends are not modelled.
\<close>

record library =
  get_channel :: "pyobj \<Rightarrow> text_channel option"
  choice :: "webhook list \<Rightarrow> webhook"
  create_webhook :: "text_channel \<Rightarrow> string \<Rightarrow> webhook"
  shorten :: "string \<Rightarrow> nat \<Rightarrow> string"

datatype effect =
    WaitUntilReady
  | GetChannel pyobj
  | FetchWebhooks int
  | CreateWebhook int string
  | WebhookSend webhook "string option"
  | ChannelSend int "string option"
  | Print "string option"

text \<open>
  The argument of both sends:
  \<^verbatim>\<open>shorten(message, 2000) if shorten_if_needed and len(message) > 2000 else message\<close>.
  The message defaults to \<^verbatim>\<open>None\<close>, and \<^verbatim>\<open>len(None)\<close> raises \<^verbatim>\<open>TypeError\<close>.
\<close>

definition text_to_send :: "library \<Rightarrow> string option \<Rightarrow> bool \<Rightarrow> exn + string option" where
  "text_to_send lib message shorten_if_needed =
     (if shorten_if_needed then
        (case message of
           None \<Rightarrow> Inl (TypeError (''object of type '' @ [CHR 0x27] @ ''NoneType'' @ [CHR 0x27]
                          @ '' has no len()''))
         | Some m \<Rightarrow> if length m > 2000 then Inr (Some (shorten lib m 2000)) else Inr (Some m))
      else Inr message)"

text \<open>
  \<^verbatim>\<open>
  async def _log_bg(self, message: str = None, *, shorten_if_needed: bool = True):
      if not self._log_channel:
          if not self.is_ready():
              await self.wait_until_ready()
          self._log_channel = self.get_channel(self._logging_channel_id)
      if not self._log_channel:
          return
      if self._log_channel.permissions_for(self._log_channel.guild.me).manage_webhooks:
          webhooks = await self._log_channel.webhooks()
          if not webhooks:
              webhook = await self._log_channel.create_webhook(name="VerboseBot Logging")
          else:
              webhook = random.choice(webhooks)
          await webhook.send(<text>)
      else:
          if self._log_channel.permissions_for(self._log_channel.guild.me).send_messages:
              await self._log_channel.send(<text>)
      print(message)
  \<close>
  The result is the bot afterwards, the effects in order, and the exception raised, if
  any.
\<close>

definition resolve_channel :: "library \<Rightarrow> VerboseBot \<Rightarrow> VerboseBot \<times> effect list" where
  "resolve_channel lib self =
     (case log_channel self of
        Some c \<Rightarrow> (self, [])
      | None \<Rightarrow>
          (self\<lparr>is_ready := True, log_channel := get_channel lib (logging_channel_id self)\<rparr>,
           (if is_ready self then [] else [WaitUntilReady])
           @ [GetChannel (logging_channel_id self)]))"

definition log_bg ::
  "library \<Rightarrow> VerboseBot \<Rightarrow> string option \<Rightarrow> bool \<Rightarrow> VerboseBot \<times> effect list \<times> exn option" where
  "log_bg lib self message shorten_if_needed =
     (let (self1, effects1) = resolve_channel lib self
      in case log_channel self1 of
           None \<Rightarrow> (self1, effects1, None)
         | Some c \<Rightarrow>
             if manage_webhooks (permissions_for_me c) then
               (let webhooks = channel_webhooks c;
                    created = create_webhook lib c ''VerboseBot Logging'';
                    webhook = (if webhooks = [] then created else choice lib webhooks);
                    c2 = (if webhooks = [] then c\<lparr>channel_webhooks := [created]\<rparr> else c);
                    effects2 = effects1 @ [FetchWebhooks (channel_id c)]
                      @ (if webhooks = [] then [CreateWebhook (channel_id c) ''VerboseBot Logging'']
                         else []);
                    self2 = self1\<lparr>log_channel := Some c2\<rparr>
                in case text_to_send lib message shorten_if_needed of
                     Inl e \<Rightarrow> (self2, effects2, Some e)
                   | Inr text \<Rightarrow>
                       (self2, effects2 @ [WebhookSend webhook text, Print message], None))
             else if send_messages (permissions_for_me c) then
               (case text_to_send lib message shorten_if_needed of
                  Inl e \<Rightarrow> (self1, effects1, Some e)
                | Inr text \<Rightarrow>
                    (self1, effects1 @ [ChannelSend (channel_id c) text, Print message], None))
             else (self1, effects1 @ [Print message], None))"

text \<open>The channel that the routine logs to: the cached one, or the one looked up.\<close>

definition resolved_channel :: "library \<Rightarrow> VerboseBot \<Rightarrow> text_channel option" where
  "resolved_channel lib self =
     (case log_channel self of
        Some c \<Rightarrow> Some c
      | None \<Rightarrow> get_channel lib (logging_channel_id self))"

text \<open>The effects and the exception of a result.\<close>

definition effects_of :: "VerboseBot \<times> effect list \<times> exn option \<Rightarrow> effect list" where
  "effects_of result = fst (snd result)"

definition raised :: "VerboseBot \<times> effect list \<times> exn option \<Rightarrow> exn option" where
  "raised result = snd (snd result)"

text \<open>The deliveries among the effects, and the texts delivered.\<close>

fun is_delivery :: "effect \<Rightarrow> bool" where
  "is_delivery (WebhookSend w text) = True"
| "is_delivery (ChannelSend c text) = True"
| "is_delivery _ = False"

definition deliveries :: "effect list \<Rightarrow> effect list" where
  "deliveries effects = filter is_delivery effects"

fun delivered_text :: "effect \<Rightarrow> string option list" where
  "delivered_text (WebhookSend w text) = [text]"
| "delivered_text (ChannelSend c text) = [text]"
| "delivered_text _ = []"

definition delivered :: "effect list \<Rightarrow> string option list" where
  "delivered effects = concat (map delivered_text effects)"

subsection \<open>A sample bot\<close>

text \<open>
  A library whose \<^verbatim>\<open>shorten\<close> truncates (a stand-in that, like \<^verbatim>\<open>textwrap.shorten\<close>,
  returns at most \<open>width\<close> characters), two channels and a bot constructed with the
  channel identifier 77.
\<close>

definition sample_channel :: "bool \<Rightarrow> bool \<Rightarrow> webhook list \<Rightarrow> text_channel" where
  "sample_channel manage send hooks =
     \<lparr>channel_id = 77,
      permissions_for_me = \<lparr>manage_webhooks = manage, send_messages = send\<rparr>,
      channel_webhooks = hooks\<rparr>"

definition sample_library :: "text_channel \<Rightarrow> library" where
  "sample_library c =
     \<lparr>get_channel = (\<lambda>i. if i = OInt 77 then Some c else None),
      choice = (\<lambda>ws. ws ! 0),
      create_webhook = (\<lambda>ch name. \<lparr>webhook_id = 1, webhook_name = name\<rparr>),
      shorten = (\<lambda>s width. take width s)\<rparr>"

definition sample_bot :: VerboseBot where
  "sample_bot =
     \<lparr>logging_channel_id = OInt 77, logging_events = LogEvents True True True True,
      log_channel = None, is_ready = False, base_args = [OStr ''!''], base_kwargs = [],
      listeners = [(''_on_command_error'', ''on_command_error''), (''_on_ready'', ''on_ready'')]\<rparr>"

chapter \<open>Verification\<close>

section \<open>Mapping\<close>

lemma getitem_present: "self key = Some v \<Longrightarrow> getitem self key = v"
  by (simp add: getitem_def)

lemma getitem_absent: "self key = None \<Longrightarrow> getitem self key = PStr (''{'' @ py_str key @ ''}'')"
  by (simp add: getitem_def missing_def)

lemma render_plain_unknown:
  "m (PStr name) = None \<Longrightarrow> \<not> positional name \<Longrightarrow>
   render lib m (plain_field name) = Inr (''{'' @ name @ ''}'')"
  by (simp add: plain_field_def getitem_absent)

lemma format_map_append:
  "format_map lib (xs @ ys) m =
     (case format_map lib xs m of
        Inl e \<Rightarrow> Inl e
      | Inr s \<Rightarrow> (case format_map lib ys m of Inl e \<Rightarrow> Inl e | Inr t \<Rightarrow> Inr (s @ t)))"
  by (induction xs) (auto split: sum.splits)

lemma format_map_unknown:
  "(\<And>seg. seg \<in> set segs \<Longrightarrow>
      (\<exists>s. seg = Lit s) \<or> (\<exists>name. seg = plain_field name \<and> m (PStr name) = None \<and> \<not> positional name))
   \<Longrightarrow> format_map lib segs m = Inr (concat (map source_text segs))"
proof (induction segs)
  case Nil
  then show ?case by simp
next
  case (Cons seg segs)
  have "render lib m seg = Inr (source_text seg)"
    using Cons.prems [of seg] by (auto simp: render_plain_unknown) (simp add: plain_field_def)
  moreover have "format_map lib segs m = Inr (concat (map source_text segs))"
    using Cons by simp
  ultimately show ?case by simp
qed

text \<open>
  Claim C8, as amended. For every key absent from a \<^verbatim>\<open>Mapping\<close>, subscripting returns
  the string \<^verbatim>\<open>"{" + str(key) + "}"\<close> and raises nothing, and every present key returns
  its stored value; hence \<^verbatim>\<open>format_map\<close> with a \<^verbatim>\<open>Mapping\<close> reproduces the text of
  every unknown placeholder that is a plain named field: a name that is neither empty
  nor a number, with no attribute, index, conversion or format specification.
\<close>

theorem Mapping_missing_keeps_plain_placeholder:
  "(self key = None \<longrightarrow> getitem self key = PStr (''{'' @ py_str key @ ''}''))
   \<and> (\<forall>v. self key = Some v \<longrightarrow> getitem self key = v)
   \<and> (m (PStr name) = None \<and> \<not> positional name
        \<and> format_map lib pre m = Inr before \<and> format_map lib post m = Inr after \<longrightarrow>
        format_map lib (pre @ [plain_field name] @ post) m
        = Inr (before @ ''{'' @ name @ ''}'' @ after))"
proof (intro conjI impI allI)
  show "getitem self key = PStr (''{'' @ py_str key @ ''}'')" if "self key = None"
    using that by (rule getitem_absent)
  show "getitem self key = v" if "self key = Some v" for v
    using that by (rule getitem_present)
  assume a: "m (PStr name) = None \<and> \<not> positional name
        \<and> format_map lib pre m = Inr before \<and> format_map lib post m = Inr after"
  then have "render lib m (plain_field name) = Inr (''{'' @ name @ ''}'')"
    by (simp add: render_plain_unknown)
  with a show "format_map lib (pre @ [plain_field name] @ post) m
        = Inr (before @ ''{'' @ name @ ''}'' @ after)"
    by (simp add: format_map_append)
qed

theorem Mapping_missing_keeps_plain_placeholder_witness:
  "getitem [PStr ''user'' \<mapsto> PStr ''Ann''] (PInt 42) = PStr ''{42}''
   \<and> getitem [PStr ''user'' \<mapsto> PStr ''Ann''] (PStr ''user'') = PStr ''Ann''
   \<and> format_map sample_format_library
        ([Lit ''Hi '', plain_field ''user'', Lit '', ''] @ [plain_field ''rank''] @ [Lit ''!''])
        [PStr ''user'' \<mapsto> PStr ''Ann''] = Inr ''Hi Ann, {rank}!''"
proof -
  let ?m = "[PStr ''user'' \<mapsto> PStr ''Ann'']"
  let ?pre = "[Lit ''Hi '', plain_field ''user'', Lit '', '']"
  have a: "?m (PInt 42) = None" by simp
  have b: "?m (PStr ''user'') = Some (PStr ''Ann'')" by simp
  have c: "?m (PStr ''rank'') = None" by simp
  have p: "\<not> positional ''rank''"
    by (simp add: positional_def is_digit_def)
  have s: "py_str (PInt 42) = ''42''"
    by (simp add: str_int_def str_nat.simps)
  have f1: "format_map sample_format_library ?pre ?m = Inr ''Hi Ann, ''"
    by (simp add: plain_field_def positional_def is_digit_def getitem_def)
  have f2: "format_map sample_format_library [Lit ''!''] ?m = Inr ''!''"
    by simp
  note t = Mapping_missing_keeps_plain_placeholder
    [of ?m "PInt 42" ?m "''rank''" sample_format_library ?pre "''Hi Ann, ''" "[Lit ''!'']" "''!''"]
  note u = Mapping_missing_keeps_plain_placeholder
    [of ?m "PStr ''user''" ?m "''rank''" sample_format_library ?pre "''Hi Ann, ''" "[Lit ''!'']" "''!''"]
  from t a s have 1: "getitem ?m (PInt 42) = PStr ''{42}''" by simp
  from u b have 2: "getitem ?m (PStr ''user'') = PStr ''Ann''" by simp
  from t c p f1 f2 have 3: "format_map sample_format_library (?pre @ [plain_field ''rank''] @ [Lit ''!'']) ?m
      = Inr ''Hi Ann, {rank}!''"
    by simp
  from 1 2 3 show ?thesis by (intro conjI)
qed

text \<open>
  The claim as it was stated fails for placeholders that are not plain named fields.
  With an empty \<^verbatim>\<open>Mapping\<close>, \<^verbatim>\<open>"{0}".format_map\<close> raises \<^verbatim>\<open>ValueError\<close>, as does
  \<^verbatim>\<open>"{}".format_map\<close>; \<^verbatim>\<open>"{x!s}".format_map\<close> gives \<^verbatim>\<open>"{x}"\<close>, which is not the
  placeholder as written; and \<^verbatim>\<open>"{x[0]}".format_map\<close> gives \<^verbatim>\<open>"{"\<close>.
\<close>

theorem Mapping_format_map_as_stated_counterexample:
  "(Map.empty :: py_Mapping) (PStr ''0'') = None
   \<and> format_map sample_format_library [Repl ''0'' [] NoConversion []] Map.empty
     = Inl (ValueError ''Format string contains positional fields'')
   \<and> format_map sample_format_library [Repl '''' [] NoConversion []] Map.empty
     = Inl (ValueError ''Format string contains positional fields'')
   \<and> (Map.empty :: py_Mapping) (PStr ''x'') = None
   \<and> source_text (Repl ''x'' [] ConvS []) = ''{x!s}''
   \<and> format_map sample_format_library [Repl ''x'' [] ConvS []] Map.empty = Inr ''{x}''
   \<and> source_text (Repl ''x'' [Index ''0''] NoConversion []) = ''{x[0]}''
   \<and> format_map sample_format_library [Repl ''x'' [Index ''0''] NoConversion []] Map.empty
     = Inr ''{''"
  by (simp add: positional_def is_digit_def getitem_def missing_def nat_of_digits_def
      digit_value_def)

section \<open>wf_msg_or_reaction\<close>

lemma wait_for_message_resolved:
  "wait_for_message c evs = Some (t, r) \<Longrightarrow> \<exists>ev. (t, ev) \<in> set evs \<and> resolves_message c ev"
proof (induction c evs rule: wait_for_message.induct)
  case (1 c)
  then show ?case by simp
next
  case (2 c t' m evs)
  then show ?case
    by (cases "call_message c m") (auto split: bool.splits if_splits)
next
  case (3 c t' r' u evs)
  then show ?case by auto
qed

lemma wait_for_reaction_resolved:
  "wait_for_reaction c evs = Some (t, r) \<Longrightarrow> \<exists>ev. (t, ev) \<in> set evs \<and> resolves_reaction c ev"
proof (induction c evs rule: wait_for_reaction.induct)
  case (1 c)
  then show ?case by simp
next
  case (2 c t' r' u evs)
  then show ?case
    by (cases "call_reaction c r' u") (auto split: bool.splits if_splits)
next
  case (3 c t' m evs)
  then show ?case by auto
qed

lemma none_resolves_withinD:
  "none_resolves_within c0 c1 T events \<Longrightarrow> (t, ev) \<in> set events \<Longrightarrow> t \<le> T \<Longrightarrow>
   \<not> resolves_message c0 ev \<and> \<not> resolves_reaction c1 ev"
  by (auto simp: none_resolves_within_def filter_empty_conv)

lemma asyncio_wait_timeout:
  assumes "\<And>t r. task0 = Some (t, r) \<Longrightarrow> T < t" and "\<And>t r. task1 = Some (t, r) \<Longrightarrow> T < t"
  shows "asyncio_wait task0 task1 T = (None, None)"
  using assms by (cases task0; cases task1) (auto simp: asyncio_wait_def)












lemma sample_evaluation:
  "message_or_default None sample_ctx = ctx_message sample_ctx"
  "lower (content sample_reply) = ''yes''"
  "message_check sample_pairs sample_ctx sample_reply"
  "\<not> message_check sample_pairs sample_ctx sample_chatter"
  "reaction_check sample_pairs sample_ctx (ctx_message sample_ctx) sample_reaction 1"
  "\<not> reaction_check sample_pairs sample_ctx (ctx_message sample_ctx) sample_reaction 3"
  "reaction_check sample_pairs sample_ctx (ctx_message sample_ctx) sample_reaction (Suc 0)"
  "map_of sample_pairs ''yes'' = Some '':y:''"
  by (simp_all add: message_or_default_def lower_def lower_char_def message_check_def
      reaction_check_def sample_ctx_def sample_reply_def sample_chatter_def sample_reaction_def
      sample_pairs_def keys_def values_of_def)

text \<open>
  Claim C3, as amended. For every call whose list of checks is absent, empty or has at
  least two entries: if no event dispatched within the effective timeout (the given
  timeout when it is truthy, 120 seconds when it is \<^verbatim>\<open>0\<close>, \<^verbatim>\<open>0.0\<close> or \<^verbatim>\<open>None\<close>)
  makes one of the two checks true or makes it raise, the coroutine raises
  \<^verbatim>\<open>asyncio.TimeoutError\<close>.
\<close>

theorem wf_raises_TimeoutError:
  assumes len: "2 \<le> length (checks_or_default checks pairs ctx (message_or_default message ctx))"
    and none: "none_resolves_within
       (checks_or_default checks pairs ctx (message_or_default message ctx) ! 0)
       (checks_or_default checks pairs ctx (message_or_default message ctx) ! 1)
       (seconds (timeout_or_default timeout)) events"
  shows "wf_msg_or_reaction ctx timeout checks message pairs events pop = Inl TimeoutError"
proof -
  let ?msg = "message_or_default message ctx"
  let ?cs = "checks_or_default checks pairs ctx ?msg"
  let ?T = "seconds (timeout_or_default timeout)"
  have a: "?T < t" if "wait_for_message (?cs ! 0) events = Some (t, r)" for t r
    using wait_for_message_resolved [OF that] none_resolves_withinD [OF none]
    by (meson not_le)
  have b: "?T < t" if "wait_for_reaction (?cs ! 1) events = Some (t, r)" for t r
    using wait_for_reaction_resolved [OF that] none_resolves_withinD [OF none]
    by (meson not_le)
  have "asyncio_wait (wait_for_message (?cs ! 0) events) (wait_for_reaction (?cs ! 1) events) ?T
        = (None, None)"
    by (rule asyncio_wait_timeout) (erule a, erule b)
  with len show ?thesis
    by (simp add: wf_msg_or_reaction_def Let_def)
qed

theorem wf_raises_TimeoutError_witness:
  "wf_msg_or_reaction sample_ctx (TInt 10) None None sample_pairs
     [(4, MessageEvent sample_chatter), (50, MessageEvent sample_reply)] True
   = Inl TimeoutError"
proof -
  let ?cs = "checks_or_default None sample_pairs sample_ctx (message_or_default None sample_ctx)"
  have len: "2 \<le> length ?cs"
    by (simp add: checks_or_default_def default_checks_def)
  have T: "seconds (timeout_or_default (TInt 10)) = 10"
    by (simp add: timeout_or_default_def)
  have none: "none_resolves_within (?cs ! 0) (?cs ! 1) (seconds (timeout_or_default (TInt 10)))
      [(4, MessageEvent sample_chatter), (50, MessageEvent sample_reply)]"
    unfolding T
    by (simp add: none_resolves_within_def checks_or_default_def default_checks_def
        sample_evaluation)
  show ?thesis
    by (rule wf_raises_TimeoutError [OF len none])
qed

text \<open>
  The claim as it was stated fails: with the timeout \<^verbatim>\<open>0\<close> no matching event occurs
  within 0 seconds, yet a reply after 50 seconds is returned; a check that raises makes
  the coroutine raise that exception although nothing matched; and a list of one check
  makes it raise \<^verbatim>\<open>IndexError\<close> with no event at all.
\<close>

theorem wf_TimeoutError_as_stated_counterexample:
  "no_match_within (default_checks sample_pairs sample_ctx (ctx_message sample_ctx) ! 0)
     (default_checks sample_pairs sample_ctx (ctx_message sample_ctx) ! 1)
     (seconds (TInt 0)) [(50, MessageEvent sample_reply)]
   \<and> wf_msg_or_reaction sample_ctx (TInt 0) None None sample_pairs
       [(50, MessageEvent sample_reply)] True = Inr (PairValue '':y:'')
   \<and> no_match_within raising_check never_check (seconds (TInt 10))
       [(5, MessageEvent sample_reply)]
   \<and> wf_msg_or_reaction sample_ctx (TInt 10) (Some [raising_check, never_check]) None
       sample_pairs [(5, MessageEvent sample_reply)] True = Inl (ValueError ''bad check'')
   \<and> wf_msg_or_reaction sample_ctx (TInt 10) (Some [never_check]) None sample_pairs [] True
       = Inl (IndexError ''list index out of range'')"
proof (intro conjI)
  show "no_match_within (default_checks sample_pairs sample_ctx (ctx_message sample_ctx) ! 0)
     (default_checks sample_pairs sample_ctx (ctx_message sample_ctx) ! 1)
     (seconds (TInt 0)) [(50, MessageEvent sample_reply)]"
    by (simp add: no_match_within_def)
  show "wf_msg_or_reaction sample_ctx (TInt 0) None None sample_pairs
       [(50, MessageEvent sample_reply)] True = Inr (PairValue '':y:'')"
    by (simp add: wf_msg_or_reaction_def checks_or_default_def default_checks_def
        asyncio_wait_def timeout_or_default_def from_message_def dict_getitem_def
        sample_evaluation)
  show "no_match_within raising_check never_check (seconds (TInt 10))
       [(5, MessageEvent sample_reply)]"
    by (simp add: no_match_within_def raising_check_def never_check_def)
  show "wf_msg_or_reaction sample_ctx (TInt 10) (Some [raising_check, never_check]) None
       sample_pairs [(5, MessageEvent sample_reply)] True = Inl (ValueError ''bad check'')"
    by (simp add: wf_msg_or_reaction_def checks_or_default_def asyncio_wait_def
        timeout_or_default_def from_message_def raising_check_def never_check_def)
  show "wf_msg_or_reaction sample_ctx (TInt 10) (Some [never_check]) None sample_pairs [] True
       = Inl (IndexError ''list index out of range'')"
    by (simp add: wf_msg_or_reaction_def checks_or_default_def)
qed







section \<open>The queue worker of QOLBot\<close>

lemma enqueued_append: "enqueued (xs @ ys) = enqueued xs @ enqueued ys"
  by (induction xs rule: enqueued.induct) simp_all

lemma awaited_append: "awaited (xs @ ys) = awaited xs @ awaited ys"
  by (induction xs rule: awaited.induct) simp_all

lemma ended_append: "ended (xs @ ys) = ended xs @ ended ys"
  by (induction xs rule: ended.induct) simp_all

lemma current_append: "current cur (xs @ ys) = current (current cur xs) ys"
  by (induction cur xs rule: current.induct) simp_all

lemma one_at_a_time_append:
  "one_at_a_time cur (xs @ ys) = (one_at_a_time cur xs \<and> one_at_a_time (current cur xs) ys)"
  by (induction cur xs rule: one_at_a_time.induct) auto

lemma take_append_full: "take n xs = l \<Longrightarrow> length l = n \<Longrightarrow> take n (xs @ ys) = l"
  by (induction xs arbitrary: n l) (auto simp: take_Cons split: nat.splits)

lemma failures_logged_append:
  "failures_logged xs \<Longrightarrow> failures_logged ys \<Longrightarrow> failures_logged (xs @ ys)"
proof (induction xs rule: failures_logged.induct)
  case 1
  then show ?case by simp
next
  case (2 j e es)
  then have "take 3 (es @ ys) = [PrintStderr failed_message, PrintExc e, TaskDone]"
    by (intro take_append_full) simp_all
  with 2 show ?case by simp
next
  case (3 j es)
  then have "take 1 (es @ ys) = [TaskDone]"
    by (intro take_append_full) simp_all
  with 3 show ?case by simp
qed simp_all

lemma after_await_Returned:
  "0 < unfinished_tasks self \<Longrightarrow>
   after_await j Returned self =
     self\<lparr>unfinished_tasks := unfinished_tasks self - 1,
          trace := trace self @ [Ended j Returned, TaskDone], worker := AtGet\<rparr>"
  by (simp add: after_await_def task_done_def)

lemma after_await_Raised:
  "0 < unfinished_tasks self \<Longrightarrow>
   after_await j (Raised e) self =
     self\<lparr>unfinished_tasks := unfinished_tasks self - 1,
          trace := trace self @ [Ended j (Raised e), PrintStderr failed_message, PrintExc e, TaskDone],
          worker := AtGet\<rparr>"
  by (simp add: after_await_def task_done_def except_clause_def)

lemma invariant_after_await:
  assumes "worker_invariant self" and "worker self = AtJob j k"
  shows "worker_invariant (after_await j r self)"
proof -
  from assms have u: "0 < unfinished_tasks self"
    by (simp add: worker_invariant_def)
  show ?thesis
  proof (cases r)
    case Returned
    with assms show ?thesis
      unfolding Returned after_await_Returned [OF u]
      by (simp add: worker_invariant_def enqueued_append awaited_append ended_append
          current_append one_at_a_time_append failures_logged_append)
  next
    case (Raised e)
    with assms show ?thesis
      unfolding Raised after_await_Raised [OF u]
      by (simp add: worker_invariant_def enqueued_append awaited_append ended_append
          current_append one_at_a_time_append failures_logged_append)
  qed
qed

lemma invariant_put: "worker_invariant self \<Longrightarrow> worker_invariant (put j self)"
  by (auto simp: worker_invariant_def put_def enqueued_append awaited_append ended_append
      current_append one_at_a_time_append failures_logged_append)

lemma invariant_step: "worker_invariant self \<Longrightarrow> worker_invariant (step a self)"
proof (cases a)
  case (Put j)
  assume "worker_invariant self"
  then show ?thesis unfolding Put by (simp add: invariant_put)
next
  case Resume
  assume inv: "worker_invariant self"
  show ?thesis
  proof (cases "worker self")
    case AtGet
    with inv show ?thesis unfolding Resume
      by (cases "queue self")
         (auto simp: worker_invariant_def enqueued_append awaited_append ended_append
          current_append one_at_a_time_append failures_logged_append)
  next
    case (AtJob j k)
    show ?thesis
    proof (cases k)
      case 0
      with inv AtJob show ?thesis unfolding Resume
        by (cases "ending j") (simp_all add: invariant_after_await)
    next
      case (Suc k')
      with inv AtJob show ?thesis unfolding Resume
        by (simp add: worker_invariant_def)
    qed
  next
    case (Dead e)
    with inv show ?thesis unfolding Resume by simp
  qed
next
  case Cancel
  assume inv: "worker_invariant self"
  show ?thesis
  proof (cases "worker self")
    case AtGet
    with inv show ?thesis unfolding Cancel by (simp add: worker_invariant_def)
  next
    case (AtJob j k)
    with inv show ?thesis unfolding Cancel by (simp add: invariant_after_await)
  next
    case (Dead e)
    with inv show ?thesis unfolding Cancel by simp
  qed
qed

lemma invariant_init: "worker_invariant (worker_started n)"
  by (simp add: worker_invariant_def worker_started_def)

lemma invariant_run: "worker_invariant self \<Longrightarrow> worker_invariant (run acts self)"
  unfolding run_def by (induction acts arbitrary: self) (simp_all add: invariant_step)


lemma after_await_AtGet:
  assumes "worker_invariant self" and "worker self = AtJob j k"
  shows "worker (after_await j r self) = AtGet \<and> queue (after_await j r self) = queue self
     \<and> enqueued (trace (after_await j r self)) = enqueued (trace self)"
proof -
  from assms have u: "0 < unfinished_tasks self"
    by (simp add: worker_invariant_def)
  show ?thesis
    by (cases r) (simp_all add: after_await_Returned [OF u] after_await_Raised [OF u]
        enqueued_append)
qed

lemma alive_step:
  assumes "worker_invariant self" and "alive (worker self)" and "\<not> is_cancel a"
  shows "alive (worker (step a self))"
proof (cases a)
  case (Put j)
  with assms show ?thesis by (simp add: put_def)
next
  case Resume
  show ?thesis
  proof (cases "worker self")
    case AtGet
    then show ?thesis unfolding Resume by (cases "queue self") simp_all
  next
    case (AtJob j k)
    show ?thesis
    proof (cases k)
      case 0
      with AtJob after_await_AtGet [OF assms(1) AtJob] show ?thesis unfolding Resume
        by (cases "ending j") simp_all
    next
      case (Suc k')
      with AtJob show ?thesis unfolding Resume by simp
    qed
  next
    case (Dead e)
    with assms show ?thesis by simp
  qed
next
  case Cancel
  with assms show ?thesis by simp
qed

lemma alive_run:
  "worker_invariant self \<Longrightarrow> alive (worker self) \<Longrightarrow> \<not> list_ex is_cancel acts \<Longrightarrow>
   alive (worker (run acts self))"
  unfolding run_def
  by (induction acts arbitrary: self) (simp_all add: alive_step invariant_step)

lemma resume_progress:
  assumes inv: "worker_invariant self" and al: "alive (worker self)"
    and pe: "pending_ends self" and d: "drain self = Suc n"
  shows "drain (step Resume self) = n \<and> alive (worker (step Resume self))
     \<and> pending_ends (step Resume self)
     \<and> enqueued (trace (step Resume self)) = enqueued (trace self)"
proof (cases "worker self")
  case AtGet
  with d obtain j rest where q: "queue self = j # rest"
    by (cases "queue self") (simp_all add: drain_def)
  with AtGet pe d show ?thesis
    by (simp add: drain_def enqueued_append)
next
  case (AtJob j k)
  show ?thesis
  proof (cases k)
    case 0
    from pe AtJob obtain r where r: "ending j = Some r" by auto
    from after_await_AtGet [OF inv AtJob, of r] AtJob 0 r pe d show ?thesis
      by (simp add: drain_def)
  next
    case (Suc k')
    with AtJob pe d show ?thesis by (simp add: drain_def)
  qed
next
  case (Dead e)
  with al show ?thesis by simp
qed

lemma run_Resume_Suc: "run (replicate (Suc n) Resume) self = run (replicate n Resume) (step Resume self)"
  by (simp add: run_def)

lemma drained:
  "drain self = n \<Longrightarrow> worker_invariant self \<Longrightarrow> alive (worker self) \<Longrightarrow> pending_ends self \<Longrightarrow>
   queue (run (replicate n Resume) self) = [] \<and> worker (run (replicate n Resume) self) = AtGet
   \<and> enqueued (trace (run (replicate n Resume) self)) = enqueued (trace self)"
proof (induction n arbitrary: self)
  case 0
  then have "resumptions (worker self) = 0" and "queue self = []"
    by (auto simp: drain_def)
  with 0 show ?case
    by (cases "worker self") (simp_all add: run_def)
next
  case (Suc n)
  from resume_progress [OF Suc.prems(2) Suc.prems(3) Suc.prems(4) Suc.prems(1)]
  have p: "drain (step Resume self) = n" "alive (worker (step Resume self))"
    "pending_ends (step Resume self)"
    "enqueued (trace (step Resume self)) = enqueued (trace self)"
    by simp_all
  from Suc.IH [OF p(1) invariant_step [OF Suc.prems(2)] p(2) p(3)] p(4)
  show ?case unfolding run_Resume_Suc by simp
qed

lemma drained_all_run:
  assumes inv: "worker_invariant self" and al: "alive (worker self)" and pe: "pending_ends self"
  shows "awaited (trace (run (replicate (drain self) Resume) self)) = enqueued (trace self)
     \<and> ended (trace (run (replicate (drain self) Resume) self)) = enqueued (trace self)
     \<and> queue (run (replicate (drain self) Resume) self) = []
     \<and> worker (run (replicate (drain self) Resume) self) = AtGet"
proof -
  let ?s = "run (replicate (drain self) Resume) self"
  from drained [OF refl inv al pe]
  have d: "queue ?s = []" "worker ?s = AtGet" "enqueued (trace ?s) = enqueued (trace self)"
    by simp_all
  have "worker_invariant ?s" using inv by (rule invariant_run)
  with d show ?thesis by (simp add: worker_invariant_def)
qed


lemma maxsize_after_await: "maxsize (after_await j r self) = maxsize self"
  by (simp add: after_await_def task_done_def except_clause_def Let_def
      split: outcome.splits sum.splits option.splits prod.splits if_splits)

lemma enqueued_after_await: "enqueued (trace (after_await j r self)) = enqueued (trace self)"
  by (cases r; cases "unfinished_tasks self = 0")
     (simp_all add: after_await_def task_done_def except_clause_def enqueued_append Let_def)

lemma step_unbounded:
  "maxsize self \<le> 0 \<Longrightarrow>
   maxsize (step a self) = maxsize self
   \<and> enqueued (trace (step a self)) = enqueued (trace self) @ puts [a]"
proof (cases a)
  case (Put j)
  assume "maxsize self \<le> 0"
  then show ?thesis unfolding Put by (simp add: put_def full_def enqueued_append)
next
  case Resume
  show ?thesis unfolding Resume
    by (simp add: maxsize_after_await enqueued_after_await enqueued_append
        split: worker.splits list.splits nat.splits option.splits)
next
  case Cancel
  show ?thesis unfolding Cancel
    by (simp add: maxsize_after_await enqueued_after_await split: worker.splits)
qed

lemma puts_append: "puts (xs @ ys) = puts xs @ puts ys"
  by (induction xs rule: puts.induct) simp_all

lemma run_unbounded:
  "maxsize self \<le> 0 \<Longrightarrow> enqueued (trace (run acts self)) = enqueued (trace self) @ puts acts"
proof (induction acts arbitrary: self)
  case Nil
  then show ?case by (simp add: run_def)
next
  case (Cons a acts)
  from step_unbounded [OF Cons.prems, of a]
  have "maxsize (step a self) \<le> 0"
    and e: "enqueued (trace (step a self)) = enqueued (trace self) @ puts [a]"
    using Cons.prems by simp_all
  from Cons.IH [OF this(1)] e have "enqueued (trace (run acts (step a self)))
      = enqueued (trace self) @ puts [a] @ puts acts"
    by simp
  moreover have "puts [a] @ puts acts = puts (a # acts)"
    using puts_append [of "[a]" acts] by simp
  ultimately show ?case by (simp add: run_def)
qed

text \<open>
  The worker loop, from a bot whose worker task has been started. Whatever the
  producers and the event loop do, the worker awaits the jobs in the order in which
  they were enqueued and one at a time: the jobs awaited followed by the jobs still
  queued are the jobs enqueued, and in the trace a job starts only when no job is being
  awaited. With an unbounded queue the jobs enqueued are the jobs put. Once the worker
  has been resumed often enough (every pending job ending), the jobs awaited are
  exactly the jobs enqueued.
\<close>

lemma queue_worker_runs_jobs_in_order:
  assumes "self = run acts (worker_started n)"
  shows "awaited (trace self) @ queue self = enqueued (trace self)
     \<and> one_at_a_time None (trace self)
     \<and> (maxsize self \<le> 0 \<longrightarrow> enqueued (trace self) = puts acts)
     \<and> (alive (worker self) \<and> pending_ends self \<longrightarrow>
          awaited (trace (run (replicate (drain self) Resume) self)) = enqueued (trace self)
          \<and> one_at_a_time None (trace (run (replicate (drain self) Resume) self)))"
proof -
  have inv: "worker_invariant self"
    unfolding assms using invariant_init by (rule invariant_run)
  then have a: "awaited (trace self) @ queue self = enqueued (trace self)"
    and b: "one_at_a_time None (trace self)"
    by (simp_all add: worker_invariant_def)
  have c: "enqueued (trace self) = puts acts" if "maxsize self \<le> 0"
  proof -
    have "maxsize (worker_started n) = maxsize self"
      unfolding assms run_def
    proof (induction acts arbitrary: n rule: rev_induct)
      case Nil
      then show ?case by simp
    next
      case (snoc a acts)
      have "maxsize (step a (fold step acts (worker_started n))) = maxsize (fold step acts (worker_started n))"
        by (cases a) (simp_all add: put_def maxsize_after_await
            split: worker.splits list.splits nat.splits option.splits)
      with snoc show ?case by simp
    qed
    with that have "maxsize (worker_started n) \<le> 0" by simp
    from run_unbounded [OF this, of acts] show ?thesis
      unfolding assms by (simp add: worker_started_def)
  qed
  have d: "awaited (trace (run (replicate (drain self) Resume) self)) = enqueued (trace self)
          \<and> one_at_a_time None (trace (run (replicate (drain self) Resume) self))"
    if "alive (worker self)" and "pending_ends self"
  proof -
    have "worker_invariant (run (replicate (drain self) Resume) self)"
      using inv by (rule invariant_run)
    then have "one_at_a_time None (trace (run (replicate (drain self) Resume) self))"
      by (simp add: worker_invariant_def)
    with drained_all_run [OF inv that] show ?thesis by simp
  qed
  from a b c d show ?thesis by blast
qed

lemma sample_run:
  "run sample_schedule (worker_started 30) =
     \<lparr>maxsize = 30, queue = [quiet_job, interrupted_job], unfinished_tasks = 3,
      worker = AtJob failing_job 0,
      trace = [Enqueued failing_job, Enqueued quiet_job, Awaiting failing_job,
               Enqueued interrupted_job]\<rparr>"
  by (simp add: sample_schedule_def run_def worker_started_def put_def full_def failing_job_def)

lemma sample_drain:
  "run (replicate 8 Resume) (run sample_schedule (worker_started 30)) =
     \<lparr>maxsize = 30, queue = [], unfinished_tasks = 0, worker = AtGet,
      trace = [Enqueued failing_job, Enqueued quiet_job, Awaiting failing_job,
               Enqueued interrupted_job,
               Ended failing_job (Raised (OtherException ''boom'')),
               PrintStderr failed_message, PrintExc (OtherException ''boom''), TaskDone,
               Awaiting quiet_job, Ended quiet_job Returned, TaskDone,
               Awaiting interrupted_job,
               Ended interrupted_job (Raised (OtherBaseException ''KeyboardInterrupt'')),
               PrintStderr failed_message, PrintExc (OtherBaseException ''KeyboardInterrupt''),
               TaskDone]\<rparr>"
  unfolding sample_run
  by (simp add: run_def eval_nat_numeral after_await_def task_done_def except_clause_def
      failing_job_def quiet_job_def interrupted_job_def)


lemma queue_worker_runs_jobs_in_order_example:
  "awaited (trace (run (replicate 8 Resume) (run sample_schedule (worker_started 30))))
     = [failing_job, quiet_job, interrupted_job]
   \<and> one_at_a_time None (trace (run (replicate 8 Resume) (run sample_schedule (worker_started 30))))
   \<and> enqueued (trace (run [Put quiet_job, Resume, Put failing_job] (worker_started 0)))
     = [quiet_job, failing_job]"
proof -
  let ?s = "run sample_schedule (worker_started 30)"
  let ?acts = "[Put quiet_job, Resume, Put failing_job]"
  note t = queue_worker_runs_jobs_in_order [OF refl, of sample_schedule 30]
  note u = queue_worker_runs_jobs_in_order [OF refl, of ?acts 0]
  have h: "alive (worker ?s) \<and> pending_ends ?s"
    by (simp add: sample_run failing_job_def quiet_job_def interrupted_job_def)
  have d: "drain ?s = 8"
    by (simp add: sample_run drain_def quiet_job_def interrupted_job_def)
  have e: "enqueued (trace ?s) = [failing_job, quiet_job, interrupted_job]"
    by (simp add: sample_run)
  from t h have "awaited (trace (run (replicate (drain ?s) Resume) ?s)) = enqueued (trace ?s)
      \<and> one_at_a_time None (trace (run (replicate (drain ?s) Resume) ?s))"
    by blast
  then have a: "awaited (trace (run (replicate 8 Resume) ?s))
        = [failing_job, quiet_job, interrupted_job]
      \<and> one_at_a_time None (trace (run (replicate 8 Resume) ?s))"
    unfolding d e .
  have m: "maxsize (run ?acts (worker_started 0)) \<le> 0"
    by (simp add: run_def worker_started_def put_def full_def)
  from u m have "enqueued (trace (run ?acts (worker_started 0))) = puts ?acts"
    by blast
  with a show ?thesis by simp
qed

text \<open>
  The worker loop, from a bot whose worker task has been started. As long as the
  worker is not cancelled, no exception leaves it: it is alive after every schedule.
  Every job that raised is followed in the trace by the line on \<^verbatim>\<open>stderr\<close> and the
  stack trace; when the job being awaited raises, the worker logs it and is back in
  \<^verbatim>\<open>queue.get()\<close> with the queue untouched; and after enough resumptions every
  enqueued job has ended, those behind a failing job included.
\<close>

lemma queue_worker_survives_failures:
  assumes "self = run acts (worker_started n)" and "\<not> list_ex is_cancel acts"
  shows "alive (worker self) \<and> failures_logged (trace self)
     \<and> (worker self = AtJob j 0 \<and> ending j = Some (Raised e) \<longrightarrow>
          worker (step Resume self) = AtGet \<and> queue (step Resume self) = queue self
          \<and> trace (step Resume self)
              = trace self @ [Ended j (Raised e), PrintStderr failed_message, PrintExc e, TaskDone])
     \<and> (pending_ends self \<longrightarrow>
          ended (trace (run (replicate (drain self) Resume) self)) = enqueued (trace self)
          \<and> alive (worker (run (replicate (drain self) Resume) self))
          \<and> failures_logged (trace (run (replicate (drain self) Resume) self)))"
proof -
  have inv: "worker_invariant self"
    unfolding assms(1) using invariant_init by (rule invariant_run)
  have al: "alive (worker self)"
    unfolding assms(1)
    by (rule alive_run [OF invariant_init _ assms(2)]) (simp add: worker_started_def)
  from inv have fl: "failures_logged (trace self)"
    by (simp add: worker_invariant_def)
  have c: "worker (step Resume self) = AtGet \<and> queue (step Resume self) = queue self
          \<and> trace (step Resume self)
              = trace self @ [Ended j (Raised e), PrintStderr failed_message, PrintExc e, TaskDone]"
    if "worker self = AtJob j 0" and "ending j = Some (Raised e)"
  proof -
    from inv that(1) have "0 < unfinished_tasks self"
      by (simp add: worker_invariant_def)
    from after_await_Raised [OF this, of j e] that show ?thesis by simp
  qed
  have d: "ended (trace (run (replicate (drain self) Resume) self)) = enqueued (trace self)
          \<and> alive (worker (run (replicate (drain self) Resume) self))
          \<and> failures_logged (trace (run (replicate (drain self) Resume) self))"
    if "pending_ends self"
  proof -
    have "worker_invariant (run (replicate (drain self) Resume) self)"
      using inv by (rule invariant_run)
    then have "failures_logged (trace (run (replicate (drain self) Resume) self))"
      by (simp add: worker_invariant_def)
    with drained_all_run [OF inv al that] show ?thesis by simp
  qed
  from al fl c d show ?thesis by blast
qed

lemma queue_worker_survives_failures_example:
  "alive (worker (run sample_schedule (worker_started 30)))
   \<and> trace (step Resume (run sample_schedule (worker_started 30)))
     = trace (run sample_schedule (worker_started 30))
       @ [Ended failing_job (Raised (OtherException ''boom'')), PrintStderr failed_message,
          PrintExc (OtherException ''boom''), TaskDone]
   \<and> worker (step Resume (run sample_schedule (worker_started 30))) = AtGet
   \<and> ended (trace (run (replicate 8 Resume) (run sample_schedule (worker_started 30))))
     = [failing_job, quiet_job, interrupted_job]
   \<and> alive (worker (run (replicate 8 Resume) (run sample_schedule (worker_started 30))))"
proof -
  let ?s = "run sample_schedule (worker_started 30)"
  have nc: "\<not> list_ex is_cancel sample_schedule"
    by (simp add: sample_schedule_def)
  note t = queue_worker_survives_failures [OF refl nc, of 30 failing_job "OtherException ''boom''"]
  have w: "worker ?s = AtJob failing_job 0 \<and> ending failing_job = Some (Raised (OtherException ''boom''))"
    by (simp add: sample_run failing_job_def)
  have p: "pending_ends ?s"
    by (simp add: sample_run failing_job_def quiet_job_def interrupted_job_def)
  have d: "drain ?s = 8"
    by (simp add: sample_run drain_def quiet_job_def interrupted_job_def)
  have e: "enqueued (trace ?s) = [failing_job, quiet_job, interrupted_job]"
    by (simp add: sample_run)
  from t have 1: "alive (worker ?s)" by blast
  from t w have 2: "worker (step Resume ?s) = AtGet
      \<and> trace (step Resume ?s) = trace ?s @ [Ended failing_job (Raised (OtherException ''boom'')),
           PrintStderr failed_message, PrintExc (OtherException ''boom''), TaskDone]"
    by blast
  from t p have "ended (trace (run (replicate (drain ?s) Resume) ?s)) = enqueued (trace ?s)
      \<and> alive (worker (run (replicate (drain ?s) Resume) ?s))"
    by blast
  then have 3: "ended (trace (run (replicate 8 Resume) ?s)) = [failing_job, quiet_job, interrupted_job]
      \<and> alive (worker (run (replicate 8 Resume) ?s))"
    unfolding d e .
  from 1 2 3 show ?thesis by blast
qed

subsection \<open>The constructor never starts the worker\<close>

lemma QOLBot_init_raises:
  "QOLBot_init max_queue_size =
     Inl (AttributeError ([CHR 0x27] @ ''QOLBot'' @ [CHR 0x27] @ '' object has no attribute ''
                          @ [CHR 0x27] @ ''loop'' @ [CHR 0x27]))"
  by (simp add: QOLBot_init_def getattr_loop_def)

text \<open>
  Claim C1. The claim is that the background worker executes the jobs put into the
  queue in order and one at a time. The worker loop does so once it runs (lemma
  \<open>queue_worker_runs_jobs_in_order\<close>), but the constructor reads \<^verbatim>\<open>self.loop\<close> one
  line before \<^verbatim>\<open>super().__init__\<close> assigns it: every construction raises
  \<^verbatim>\<open>AttributeError\<close>, no worker task is created, and a program that constructs the bot
  and puts jobs ends with that exception, whatever the bound and the schedule.
\<close>

theorem QOLBot_session_never_runs_a_job:
  "QOLBot_init max_queue_size =
     Inl (AttributeError ([CHR 0x27] @ ''QOLBot'' @ [CHR 0x27] @ '' object has no attribute ''
                          @ [CHR 0x27] @ ''loop'' @ [CHR 0x27]))
   \<and> QOLBot_session max_queue_size acts =
     Inl (AttributeError ([CHR 0x27] @ ''QOLBot'' @ [CHR 0x27] @ '' object has no attribute ''
                          @ [CHR 0x27] @ ''loop'' @ [CHR 0x27]))"
  by (simp add: QOLBot_session_def QOLBot_init_raises)

text \<open>
  Claim C2. The claim is that a job that raises is caught and logged and that the jobs
  enqueued after it still run. The worker loop does so once it runs (lemma
  \<open>queue_worker_survives_failures\<close>), but with the constructor as it is written the
  session that puts a failing job and then a second job, and resumes the worker as
  often as the two jobs would need, ends with the \<^verbatim>\<open>AttributeError\<close> of the
  constructor: neither job is awaited and nothing is logged.
\<close>

theorem QOLBot_session_failing_job_unhandled:
  "QOLBot_session None ([Put failing_job, Put quiet_job] @ replicate 5 Resume) =
     Inl (AttributeError ([CHR 0x27] @ ''QOLBot'' @ [CHR 0x27] @ '' object has no attribute ''
                          @ [CHR 0x27] @ ''loop'' @ [CHR 0x27]))
   \<and> ended (trace (run ([Put failing_job, Put quiet_job] @ replicate 5 Resume)
                      (worker_started 30)))
     = [failing_job, quiet_job]"
proof -
  have "run ([Put failing_job, Put quiet_job] @ replicate 5 Resume) (worker_started 30)
        = \<lparr>maxsize = 30, queue = [], unfinished_tasks = 0, worker = AtGet,
           trace = [Enqueued failing_job, Enqueued quiet_job, Awaiting failing_job,
                    Ended failing_job (Raised (OtherException ''boom'')),
                    PrintStderr failed_message, PrintExc (OtherException ''boom''), TaskDone,
                    Awaiting quiet_job, Ended quiet_job Returned, TaskDone]\<rparr>"
    by (simp add: run_def worker_started_def put_def full_def eval_nat_numeral
        after_await_def task_done_def except_clause_def failing_job_def quiet_job_def)
  then show ?thesis
    by (simp add: QOLBot_session_def QOLBot_init_raises)
qed

section \<open>VerboseBot\<close>

lemma map_of_filter_other:
  "k \<noteq> key \<Longrightarrow> map_of (filter (\<lambda>(k', v). k' \<noteq> key) kw) k = map_of kw k"
  by (induction kw) auto

lemma supplied_after_pop:
  "k \<noteq> key \<Longrightarrow> supplied (snd (kwargs_pop kw key d)) k d' = supplied kw k d'"
  by (simp add: supplied_def kwargs_pop_def map_of_filter_other split: option.splits)

lemma fst_kwargs_pop: "fst (kwargs_pop kw key d) = supplied kw key d"
  by (simp add: supplied_def kwargs_pop_def split: option.splits)

lemma VerboseBot_init_unfold:
  "VerboseBot_init args kw =
     (if truthy (supplied kw ''log_channel'' ONone) \<and> \<not> isinstance_int (supplied kw ''log_channel'' ONone)
      then Inl (TypeError ''Logging channel ID is not an integer.'')
      else if \<not> isinstance_dict (supplied kw ''log_events'' (LogEvents True True True True))
      then Inl (TypeError ''Logging events is not a dictionary or LogEvents class.'')
      else Inr \<lparr>logging_channel_id = supplied kw ''log_channel'' ONone,
                logging_events = supplied kw ''log_events'' (LogEvents True True True True),
                log_channel = None, is_ready = False, base_args = args,
                base_kwargs = snd (kwargs_pop (snd (kwargs_pop kw ''log_channel'' ONone)) ''log_events''
                                   (LogEvents True True True True)),
                listeners = [(''_on_command_error'', ''on_command_error''),
                             (''_on_ready'', ''on_ready'')]\<rparr>)"
proof -
  have l: "isinstance_LogEvents x \<Longrightarrow> isinstance_dict x" for x
    by (cases x) simp_all
  have e: "fst (kwargs_pop (snd (kwargs_pop kw ''log_channel'' ONone)) ''log_events'' d)
           = supplied kw ''log_events'' d" for d
    by (simp add: fst_kwargs_pop supplied_after_pop)
  show ?thesis
    using l e [of "LogEvents True True True True"]
    by (auto simp: VerboseBot_init_def Let_def fst_kwargs_pop [symmetric] split: prod.splits)
qed

text \<open>
  Claim C6, as amended. The constructor raises \<^verbatim>\<open>TypeError\<close>, before the base
  constructor runs, when the \<^verbatim>\<open>log_channel\<close> value is truthy and not an integer, and
  when the \<^verbatim>\<open>log_events\<close> value is not a dictionary (a \<^verbatim>\<open>LogEvents\<close> is one). A falsy
  \<^verbatim>\<open>log_channel\<close> value (\<^verbatim>\<open>None\<close>, an empty string, \<^verbatim>\<open>0.0\<close>, an empty list) is accepted
  whatever its type: with a dictionary for \<^verbatim>\<open>log_events\<close> the bot is constructed.
\<close>

theorem VerboseBot_init_raises_TypeError:
  "(truthy (supplied kw ''log_channel'' ONone)
      \<and> \<not> isinstance_int (supplied kw ''log_channel'' ONone) \<longrightarrow>
      VerboseBot_init args kw = Inl (TypeError ''Logging channel ID is not an integer.''))
   \<and> (\<not> isinstance_dict (supplied kw ''log_events'' (LogEvents True True True True)) \<longrightarrow>
      (\<exists>text. VerboseBot_init args kw = Inl (TypeError text)))
   \<and> ((\<not> truthy (supplied kw ''log_channel'' ONone) \<or> isinstance_int (supplied kw ''log_channel'' ONone))
      \<and> isinstance_dict (supplied kw ''log_events'' (LogEvents True True True True)) \<longrightarrow>
      (\<exists>bot. VerboseBot_init args kw = Inr bot
         \<and> logging_channel_id bot = supplied kw ''log_channel'' ONone
         \<and> logging_events bot = supplied kw ''log_events'' (LogEvents True True True True)))"
  unfolding VerboseBot_init_unfold by simp


theorem VerboseBot_init_raises_TypeError_witness:
  "VerboseBot_init [OStr ''!''] [(''log_channel'', OStr ''77'')]
     = Inl (TypeError ''Logging channel ID is not an integer.'')
   \<and> (\<exists>text. VerboseBot_init [OStr ''!''] [(''log_channel'', OInt 77), (''log_events'', OList [])]
        = Inl (TypeError text))
   \<and> (\<exists>bot. VerboseBot_init [OStr ''!''] [(''log_channel'', OInt 77)] = Inr bot
        \<and> logging_channel_id bot = OInt 77)"
proof -
  note a = VerboseBot_init_raises_TypeError [of "[(''log_channel'', OStr ''77'')]" "[OStr ''!'']"]
  note b = VerboseBot_init_raises_TypeError
    [of "[(''log_channel'', OInt 77), (''log_events'', OList [])]" "[OStr ''!'']"]
  note c = VerboseBot_init_raises_TypeError [of "[(''log_channel'', OInt 77)]" "[OStr ''!'']"]
  have 1: "VerboseBot_init [OStr ''!''] [(''log_channel'', OStr ''77'')]
     = Inl (TypeError ''Logging channel ID is not an integer.'')"
    using a by (simp add: supplied_def)
  have 2: "\<exists>text. VerboseBot_init [OStr ''!''] [(''log_channel'', OInt 77), (''log_events'', OList [])]
        = Inl (TypeError text)"
    using b by (simp add: supplied_def)
  have 3: "\<exists>bot. VerboseBot_init [OStr ''!''] [(''log_channel'', OInt 77)] = Inr bot
        \<and> logging_channel_id bot = OInt 77"
    using c by (auto simp: supplied_def LogEvents_def)
  from 1 2 3 show ?thesis by (intro conjI)
qed

text \<open>
  The claim as it was stated fails: an empty string and the float \<^verbatim>\<open>0.0\<close> are not
  integers, and the constructor accepts both as \<^verbatim>\<open>log_channel\<close>.
\<close>

theorem VerboseBot_init_as_stated_counterexample:
  "\<not> isinstance_int (OStr '''')
   \<and> VerboseBot_init [OStr ''!''] [(''log_channel'', OStr '''')]
     = Inr (sample_bot\<lparr>logging_channel_id := OStr ''''\<rparr>)
   \<and> \<not> isinstance_int (OFloat 0)
   \<and> VerboseBot_init [OStr ''!''] [(''log_channel'', OFloat 0)]
     = Inr (sample_bot\<lparr>logging_channel_id := OFloat 0\<rparr>)"
  by (simp add: VerboseBot_init_def kwargs_pop_def sample_bot_def LogEvents_def)

lemma resolve_channel_resolved:
  "resolved_channel lib self = Some c \<Longrightarrow>
   log_channel (fst (resolve_channel lib self)) = Some c
   \<and> deliveries (snd (resolve_channel lib self)) = []
   \<and> delivered (snd (resolve_channel lib self)) = []
   \<and> CreateWebhook i name \<notin> set (snd (resolve_channel lib self))"
  by (cases "log_channel self")
     (simp_all add: resolved_channel_def resolve_channel_def deliveries_def delivered_def)

lemma deliveries_append: "deliveries (xs @ ys) = deliveries xs @ deliveries ys"
  by (simp add: deliveries_def)

lemma delivered_append: "delivered (xs @ ys) = delivered xs @ delivered ys"
  by (simp add: delivered_def)

lemma log_bg_resolved:
  assumes "resolved_channel lib self = Some c"
    and "text_to_send lib message flag = Inr text"
  shows "effects_of (log_bg lib self message flag) =
     snd (resolve_channel lib self)
     @ (if manage_webhooks (permissions_for_me c) then
          [FetchWebhooks (channel_id c)]
          @ (if channel_webhooks c = [] then [CreateWebhook (channel_id c) ''VerboseBot Logging'']
             else [])
          @ [WebhookSend (if channel_webhooks c = [] then create_webhook lib c ''VerboseBot Logging''
                          else choice lib (channel_webhooks c)) text,
             Print message]
        else if send_messages (permissions_for_me c) then
          [ChannelSend (channel_id c) text, Print message]
        else [Print message])
     \<and> raised (log_bg lib self message flag) = None"
proof -
  obtain self1 effects1 where r: "resolve_channel lib self = (self1, effects1)"
    by (cases "resolve_channel lib self")
  with resolve_channel_resolved [OF assms(1)] have c: "log_channel self1 = Some c"
    by simp
  show ?thesis
    by (simp add: log_bg_def r c assms(2) Let_def effects_of_def raised_def)
qed

text \<open>
  Claim C7. With a resolved log channel (and a text to send), the routine delivers
  through a webhook when the bot may manage webhooks in the channel: one fetched from
  the channel, or one it creates when the channel has none. Otherwise it delivers as a
  channel message when the bot may send messages. The webhook is used whenever it is
  permitted, also when sending messages is permitted too.
\<close>

theorem log_bg_prefers_webhook:
  assumes "resolved_channel lib self = Some c"
    and "text_to_send lib message flag = Inr text"
  shows "(manage_webhooks (permissions_for_me c) \<longrightarrow>
            deliveries (effects_of (log_bg lib self message flag))
              = [WebhookSend (if channel_webhooks c = []
                              then create_webhook lib c ''VerboseBot Logging''
                              else choice lib (channel_webhooks c)) text]
            \<and> (CreateWebhook (channel_id c) ''VerboseBot Logging''
                  \<in> set (effects_of (log_bg lib self message flag))
                \<longleftrightarrow> channel_webhooks c = []))
     \<and> (\<not> manage_webhooks (permissions_for_me c) \<and> send_messages (permissions_for_me c) \<longrightarrow>
            deliveries (effects_of (log_bg lib self message flag))
              = [ChannelSend (channel_id c) text])
     \<and> (\<not> manage_webhooks (permissions_for_me c) \<and> \<not> send_messages (permissions_for_me c) \<longrightarrow>
            deliveries (effects_of (log_bg lib self message flag)) = [])"
proof -
  note e = log_bg_resolved [OF assms, THEN conjunct1]
  note r = resolve_channel_resolved [OF assms(1)]
  have d: "deliveries (snd (resolve_channel lib self)) = []"
    using r by blast
  have n: "CreateWebhook (channel_id c) ''VerboseBot Logging'' \<notin> set (snd (resolve_channel lib self))"
    using r by blast
  show ?thesis
    unfolding e using n by (simp add: deliveries_append d) (simp add: deliveries_def)
qed

lemma text_to_send_bound:
  assumes "\<forall>s. length (shorten lib s 2000) \<le> 2000"
  shows "\<exists>t. text_to_send lib (Some m) True = Inr (Some t) \<and> length t \<le> 2000
           \<and> (length m \<le> 2000 \<longrightarrow> t = m) \<and> (2000 < length m \<longrightarrow> t = shorten lib m 2000)"
  using assms by (simp add: text_to_send_def)

text \<open>
  Claim C9. With \<^verbatim>\<open>shorten_if_needed\<close> true, and \<^verbatim>\<open>textwrap.shorten\<close> returning at most
  \<open>width\<close> characters, every text that the routine delivers to a webhook or a channel
  has at most 2000 characters: it is the message itself when that has at most 2000
  characters, and \<^verbatim>\<open>shorten(message, 2000)\<close> otherwise.
\<close>

theorem log_bg_delivers_at_most_2000:
  assumes "\<forall>s. length (shorten lib s 2000) \<le> 2000"
  shows "\<forall>text \<in> set (delivered (effects_of (log_bg lib self (Some m) True))).
           \<exists>t. text = Some t \<and> length t \<le> 2000
             \<and> (length m \<le> 2000 \<longrightarrow> t = m)
             \<and> (2000 < length m \<longrightarrow> t = shorten lib m 2000)"
proof (cases "resolved_channel lib self")
  case None
  then have "effects_of (log_bg lib self (Some m) True) = snd (resolve_channel lib self)"
    by (cases "log_channel self")
       (simp_all add: resolved_channel_def resolve_channel_def log_bg_def effects_of_def)
  moreover have "delivered (snd (resolve_channel lib self)) = []"
    by (cases "log_channel self") (simp_all add: resolve_channel_def delivered_def)
  ultimately show ?thesis by simp
next
  case (Some c)
  from text_to_send_bound [OF assms, of m] obtain t
    where t: "text_to_send lib (Some m) True = Inr (Some t)" "length t \<le> 2000"
      "length m \<le> 2000 \<longrightarrow> t = m" "2000 < length m \<longrightarrow> t = shorten lib m 2000"
    by blast
  note e = log_bg_resolved [OF Some t(1), THEN conjunct1]
  have d: "delivered (snd (resolve_channel lib self)) = []"
    using resolve_channel_resolved [OF Some] by blast
  have "set (delivered (effects_of (log_bg lib self (Some m) True))) \<subseteq> {Some t}"
    unfolding e by (simp add: delivered_append d) (simp add: delivered_def)
  with t show ?thesis by blast
qed


lemma sample_resolved:
  "resolved_channel (sample_library c) sample_bot = Some c"
  by (simp add: resolved_channel_def sample_library_def sample_bot_def)

theorem log_bg_prefers_webhook_witness:
  "deliveries (effects_of (log_bg (sample_library (sample_channel True True [])) sample_bot
       (Some ''hello'') True))
     = [WebhookSend \<lparr>webhook_id = 1, webhook_name = ''VerboseBot Logging''\<rparr> (Some ''hello'')]
   \<and> CreateWebhook 77 ''VerboseBot Logging''
       \<in> set (effects_of (log_bg (sample_library (sample_channel True True [])) sample_bot
                 (Some ''hello'') True))
   \<and> deliveries (effects_of (log_bg
         (sample_library (sample_channel True True [\<lparr>webhook_id = 9, webhook_name = ''old''\<rparr>]))
         sample_bot (Some ''hello'') True))
     = [WebhookSend \<lparr>webhook_id = 9, webhook_name = ''old''\<rparr> (Some ''hello'')]
   \<and> deliveries (effects_of (log_bg (sample_library (sample_channel False True [])) sample_bot
       (Some ''hello'') True))
     = [ChannelSend 77 (Some ''hello'')]"
proof -
  let ?a = "sample_channel True True []"
  let ?b = "sample_channel True True [\<lparr>webhook_id = 9, webhook_name = ''old''\<rparr>]"
  let ?c = "sample_channel False True []"
  have t: "text_to_send (sample_library c) (Some ''hello'') True = Inr (Some ''hello'')" for c
    by (simp add: text_to_send_def)
  note a = log_bg_prefers_webhook [OF sample_resolved t, of ?a]
  note b = log_bg_prefers_webhook [OF sample_resolved t, of ?b]
  note c = log_bg_prefers_webhook [OF sample_resolved t, of ?c]
  have 1: "deliveries (effects_of (log_bg (sample_library ?a) sample_bot (Some ''hello'') True))
        = [WebhookSend \<lparr>webhook_id = 1, webhook_name = ''VerboseBot Logging''\<rparr> (Some ''hello'')]
      \<and> CreateWebhook 77 ''VerboseBot Logging''
          \<in> set (effects_of (log_bg (sample_library ?a) sample_bot (Some ''hello'') True))"
    using a by (simp add: sample_channel_def sample_library_def)
  have 2: "deliveries (effects_of (log_bg (sample_library ?b) sample_bot (Some ''hello'') True))
        = [WebhookSend \<lparr>webhook_id = 9, webhook_name = ''old''\<rparr> (Some ''hello'')]"
    using b by (simp add: sample_channel_def sample_library_def)
  have 3: "deliveries (effects_of (log_bg (sample_library ?c) sample_bot (Some ''hello'') True))
        = [ChannelSend 77 (Some ''hello'')]"
    using c by (simp add: sample_channel_def sample_library_def)
  from 1 2 3 show ?thesis by blast
qed

theorem log_bg_delivers_at_most_2000_witness:
  "delivered (effects_of (log_bg (sample_library (sample_channel True True [])) sample_bot
       (Some (replicate 2001 (CHR ''x''))) True))
     = [Some (shorten (sample_library (sample_channel True True [])) (replicate 2001 (CHR ''x'')) 2000)]
   \<and> length (shorten (sample_library (sample_channel True True [])) (replicate 2001 (CHR ''x'')) 2000)
     \<le> 2000
   \<and> delivered (effects_of (log_bg (sample_library (sample_channel False True [])) sample_bot
       (Some ''short'') True))
     = [Some ''short'']"
proof -
  let ?L = "sample_library (sample_channel True True [])"
  let ?M = "sample_library (sample_channel False True [])"
  let ?big = "replicate 2001 (CHR ''x'')"
  have h: "\<forall>s. length (shorten (sample_library c) s 2000) \<le> 2000" for c
    by (simp add: sample_library_def)
  have big: "text_to_send ?L (Some ?big) True = Inr (Some (shorten ?L ?big 2000))"
    by (simp add: text_to_send_def)
  have small: "text_to_send ?M (Some ''short'') True = Inr (Some ''short'')"
    by (simp add: text_to_send_def)
  have 1: "delivered (effects_of (log_bg ?L sample_bot (Some ?big) True))
        = [Some (shorten ?L ?big 2000)]"
    unfolding log_bg_resolved [OF sample_resolved big, THEN conjunct1]
    by (simp add: delivered_def resolve_channel_def sample_bot_def sample_channel_def)
  have 3: "delivered (effects_of (log_bg ?M sample_bot (Some ''short'') True)) = [Some ''short'']"
    unfolding log_bg_resolved [OF sample_resolved small, THEN conjunct1]
    by (simp add: delivered_def resolve_channel_def sample_bot_def sample_channel_def)
  note t = log_bg_delivers_at_most_2000 [OF h, of "sample_channel True True []" sample_bot ?big]
  from t 1 have "\<exists>t. Some (shorten ?L ?big 2000) = Some t \<and> length t \<le> 2000
       \<and> (length ?big \<le> 2000 \<longrightarrow> t = ?big) \<and> (2000 < length ?big \<longrightarrow> t = shorten ?L ?big 2000)"
    by simp
  then have 2: "length (shorten ?L ?big 2000) \<le> 2000"
    by blast
  from 1 2 3 show ?thesis by blast
qed

end
